theory Spec2Isabelle
  imports Main
begin

section \<open>JavaScript strings and values\<close>

text \<open>
  A JavaScript string is a sequence of UTF-16 code units; \<open>length\<close>, indexing, regular
  expressions without the \<open>u\<close> flag and \<open>trim\<close> all work on code units. A code unit is
  modelled by its number. \<open>js\<close> turns an ASCII literal into such a string.
\<close>

type_synonym jsstring = "nat list"

definition js :: "string \<Rightarrow> jsstring" where
  "js s = map of_char s"

text \<open>
  The values a reply can carry: what \<open>JSON.parse\<close> and \<open>response.json()\<close> produce, and
  \<open>undefined\<close>, which reading a missing property yields. A number keeps its JSON literal:
  the code only tests numbers for truthiness and for their type. An object keeps its
  members in source order; a later member of the same name overrides an earlier one.
\<close>

datatype jsval =
    JUndefined
  | JNull
  | JBool bool
  | JNum jsstring
  | JStr jsstring
  | JArr "jsval list"
  | JObj "(jsstring \<times> jsval) list"

definition is_digit :: "nat \<Rightarrow> bool" where
  "is_digit c = (48 \<le> c \<and> c \<le> 57)"

text \<open>The number a string of decimal digits denotes, and the same after an optional sign.\<close>

definition decimal_value :: "jsstring \<Rightarrow> nat" where
  "decimal_value ds = foldl (\<lambda>a d. 10 * a + (d - 48)) 0 ds"

definition signed_decimal :: "jsstring \<Rightarrow> int" where
  "signed_decimal s =
     (case s of
        [] \<Rightarrow> 0
      | c # r \<Rightarrow>
          if c = 45 then - int (decimal_value r)
          else if c = 43 then int (decimal_value r)
          else int (decimal_value s))"

text \<open>
  A JSON number literal (an optional minus, integer digits, an optional fraction, an
  optional exponent) denotes \<open>m * 10^k\<close> up to its sign, where \<open>m\<close> is the number its
  integer and fraction digits spell and \<open>k\<close> its exponent less the number of fraction
  digits.
\<close>

definition num_parts :: "jsstring \<Rightarrow> nat \<times> int" where
  "num_parts lit =
     (let b = (case lit of [] \<Rightarrow> [] | c # r \<Rightarrow> if c = 45 then r else lit);
          ip = takeWhile is_digit b;
          r1 = dropWhile is_digit b;
          fp = (case r1 of [] \<Rightarrow> [] | c # r \<Rightarrow> if c = 46 then takeWhile is_digit r else []);
          r2 = (case r1 of [] \<Rightarrow> [] | c # r \<Rightarrow> if c = 46 then dropWhile is_digit r else r1);
          ex = (case r2 of [] \<Rightarrow> 0 | c # r \<Rightarrow> if c = 101 \<or> c = 69 then signed_decimal r else 0)
      in (decimal_value (ip @ fp), ex - int (length fp)))"

text \<open>
  The literal is read as a double, rounded to the nearest one, ties to even: it is zero
  (and so falsy) when its digits are all zero, and also when it is at most \<open>2^-1075\<close>,
  half of the least positive double.
\<close>

definition num_is_zero :: "jsstring \<Rightarrow> bool" where
  "num_is_zero lit =
     (case num_parts lit of
        (m, k) \<Rightarrow> m = 0 \<or> (k < 0 \<and> int m * 2 ^ 1075 \<le> 10 ^ nat (- k)))"

text \<open>JavaScript's \<open>ToBoolean\<close>, as \<open>if (v)\<close>, \<open>!v\<close>, \<open>a && b\<close> and \<open>a || b\<close> apply it.\<close>

fun truthy :: "jsval \<Rightarrow> bool" where
  "truthy JUndefined = False"
| "truthy JNull = False"
| "truthy (JBool b) = b"
| "truthy (JNum lit) = (\<not> num_is_zero lit)"
| "truthy (JStr s) = (s \<noteq> [])"
| "truthy (JArr xs) = True"
| "truthy (JObj ms) = True"

text \<open>\<open>a || b\<close> on values.\<close>

definition js_or :: "jsval \<Rightarrow> jsval \<Rightarrow> jsval" where
  "js_or a b = (if truthy a then a else b)"

datatype error =
    NetworkError jsstring
  | HttpError nat jsstring
  | InvalidResponseFormat
  | TypeError
  | SyntaxError
  | UnknownError

text \<open>
  \<open>v.name\<close>, for the names the code reads (\<open>candidates\<close>, \<open>content\<close>, \<open>parts\<close>, \<open>text\<close>:
  none is an index or a built-in property of arrays, strings, numbers or booleans).
  Reading a property of \<open>undefined\<close> or \<open>null\<close> throws a TypeError.
\<close>

fun get_prop :: "jsval \<Rightarrow> jsstring \<Rightarrow> error + jsval" where
  "get_prop JUndefined name = Inl TypeError"
| "get_prop JNull name = Inl TypeError"
| "get_prop (JObj ms) name =
     Inr (case map_of (rev ms) name of None \<Rightarrow> JUndefined | Some v \<Rightarrow> v)"
| "get_prop v name = Inr JUndefined"

text \<open>
  \<open>v[0]\<close>: the first element of an array, the first code unit of a string (as a string),
  the member named \<open>0\<close> of an object.
\<close>

fun get_index0 :: "jsval \<Rightarrow> error + jsval" where
  "get_index0 JUndefined = Inl TypeError"
| "get_index0 JNull = Inl TypeError"
| "get_index0 (JArr xs) = Inr (case xs of [] \<Rightarrow> JUndefined | x # _ \<Rightarrow> x)"
| "get_index0 (JStr s) = Inr (case s of [] \<Rightarrow> JUndefined | c # _ \<Rightarrow> JStr [c])"
| "get_index0 (JObj ms) =
     Inr (case map_of (rev ms) (js ''0'') of None \<Rightarrow> JUndefined | Some v \<Rightarrow> v)"
| "get_index0 v = Inr JUndefined"

section \<open>JSON.parse\<close>

text \<open>
  \<open>JSON.parse\<close> is the platform's; it is modelled as a lexer and a pushdown parser over
  the JSON grammar (ECMA-404), both by structural recursion, so that parsing is total:
  \<open>None\<close> is the SyntaxError the platform throws.
\<close>

datatype token =
    TLBracket | TRBracket | TLBrace | TRBrace | TColon | TComma
  | TStr jsstring | TNum jsstring | TTrue | TFalse | TNull

definition is_json_ws :: "nat \<Rightarrow> bool" where
  "is_json_ws c = (c = 32 \<or> c = 9 \<or> c = 10 \<or> c = 13)"

definition is_num_start :: "nat \<Rightarrow> bool" where
  "is_num_start c = (c = 45 \<or> is_digit c)"

definition is_num_char :: "nat \<Rightarrow> bool" where
  "is_num_char c = (is_digit c \<or> c = 45 \<or> c = 43 \<or> c = 46 \<or> c = 101 \<or> c = 69)"

definition is_word_char :: "nat \<Rightarrow> bool" where
  "is_word_char c = (97 \<le> c \<and> c \<le> 122)"

definition hex_val :: "nat \<Rightarrow> nat option" where
  "hex_val c =
     (if 48 \<le> c \<and> c \<le> 57 then Some (c - 48)
      else if 97 \<le> c \<and> c \<le> 102 then Some (c - 87)
      else if 65 \<le> c \<and> c \<le> 70 then Some (c - 55)
      else None)"

text \<open>The single-character escapes: quote, backslash, slash, b, f, n, r, t.\<close>

definition unescape :: "nat \<Rightarrow> nat option" where
  "unescape c =
     (if c = 34 then Some 34
      else if c = 92 then Some 92
      else if c = 47 then Some 47
      else if c = 98 then Some 8
      else if c = 102 then Some 12
      else if c = 110 then Some 10
      else if c = 114 then Some 13
      else if c = 116 then Some 9
      else None)"

text \<open>
  The grammar of a number literal:
  an optional minus, \<open>0\<close> or a digit run not starting with \<open>0\<close>, an optional fraction
  (a dot and at least one digit), an optional exponent (\<open>e\<close> or \<open>E\<close>, an optional sign,
  at least one digit).
\<close>

definition valid_exp :: "jsstring \<Rightarrow> bool" where
  "valid_exp s =
     (case s of
        [] \<Rightarrow> True
      | c # r \<Rightarrow>
          (c = 101 \<or> c = 69) \<and>
          (let d = (case r of [] \<Rightarrow> [] | x # r' \<Rightarrow> if x = 43 \<or> x = 45 then r' else r)
           in d \<noteq> [] \<and> list_all is_digit d))"

definition valid_frac_exp :: "jsstring \<Rightarrow> bool" where
  "valid_frac_exp s =
     (case s of
        [] \<Rightarrow> True
      | c # r \<Rightarrow>
          if c = 46 then takeWhile is_digit r \<noteq> [] \<and> valid_exp (dropWhile is_digit r)
          else valid_exp s)"

definition valid_number :: "jsstring \<Rightarrow> bool" where
  "valid_number s =
     (let u = (case s of [] \<Rightarrow> [] | c # r \<Rightarrow> if c = 45 then r else s)
      in case u of
           [] \<Rightarrow> False
         | c # r \<Rightarrow>
             if c = 48 then valid_frac_exp r
             else is_digit c \<and> valid_frac_exp (dropWhile is_digit r))"

definition word_token :: "jsstring \<Rightarrow> token option" where
  "word_token w =
     (if w = js ''true'' then Some TTrue
      else if w = js ''false'' then Some TFalse
      else if w = js ''null'' then Some TNull
      else None)"

definition punct :: "nat \<Rightarrow> token option" where
  "punct c =
     (if c = 91 then Some TLBracket
      else if c = 93 then Some TRBracket
      else if c = 123 then Some TLBrace
      else if c = 125 then Some TRBrace
      else if c = 58 then Some TColon
      else if c = 44 then Some TComma
      else None)"

text \<open>
  The lexer reads one code unit at a time. Its mode says what it is inside of: nothing, a
  string (with the code units read so far, reversed), an escape, a \<open>\u\<close> escape (with its
  hex digits so far), a number or a bare word. A number or word ends at the first code
  unit that cannot continue it; that code unit is then read again in normal mode.
\<close>

datatype lexmode =
    LNormal
  | LStr jsstring
  | LEsc jsstring
  | LUni jsstring "nat list"
  | LNum jsstring
  | LWord jsstring

definition cons_tok :: "token \<Rightarrow> token list option \<Rightarrow> token list option" where
  "cons_tok t r = map_option ((#) t) r"

function lexer :: "lexmode \<Rightarrow> jsstring \<Rightarrow> token list option" where
  "lexer LNormal [] = Some []"
| "lexer (LStr acc) [] = None"
| "lexer (LEsc acc) [] = None"
| "lexer (LUni acc hs) [] = None"
| "lexer (LNum acc) [] = (if valid_number (rev acc) then Some [TNum (rev acc)] else None)"
| "lexer (LWord acc) [] = (case word_token (rev acc) of None \<Rightarrow> None | Some t \<Rightarrow> Some [t])"
| "lexer LNormal (c # cs) =
     (if is_json_ws c then lexer LNormal cs
      else if c = 34 then lexer (LStr []) cs
      else if is_num_start c then lexer (LNum [c]) cs
      else if is_word_char c then lexer (LWord [c]) cs
      else (case punct c of None \<Rightarrow> None | Some t \<Rightarrow> cons_tok t (lexer LNormal cs)))"
| "lexer (LStr acc) (c # cs) =
     (if c = 34 then cons_tok (TStr (rev acc)) (lexer LNormal cs)
      else if c = 92 then lexer (LEsc acc) cs
      else if c < 32 then None
      else lexer (LStr (c # acc)) cs)"
| "lexer (LEsc acc) (c # cs) =
     (if c = 117 then lexer (LUni acc []) cs
      else (case unescape c of None \<Rightarrow> None | Some x \<Rightarrow> lexer (LStr (x # acc)) cs))"
| "lexer (LUni acc hs) (c # cs) =
     (case hex_val c of
        None \<Rightarrow> None
      | Some h \<Rightarrow>
          if length hs = 3
          then lexer (LStr (foldl (\<lambda>a d. 16 * a + d) 0 (hs @ [h]) # acc)) cs
          else lexer (LUni acc (hs @ [h])) cs)"
| "lexer (LNum acc) (c # cs) =
     (if is_num_char c then lexer (LNum (c # acc)) cs
      else if valid_number (rev acc) then cons_tok (TNum (rev acc)) (lexer LNormal (c # cs))
      else None)"
| "lexer (LWord acc) (c # cs) =
     (if is_word_char c then lexer (LWord (c # acc)) cs
      else (case word_token (rev acc) of
              None \<Rightarrow> None
            | Some t \<Rightarrow> cons_tok t (lexer LNormal (c # cs))))"
  by pat_completeness auto
termination
  by (relation "measure (\<lambda>(m, s). 2 * length s + (if m = LNormal then 0 else 1))") auto

text \<open>
  The parser keeps a stack of the containers that are open: an array with its elements
  so far, an object with its members so far (both reversed), and on top of an object the
  key whose value is being read.
\<close>

datatype frame =
    ArrF "jsval list"
  | ObjF "(jsstring \<times> jsval) list"
  | KeyF jsstring

datatype pmode =
    PValue
  | PFirst
  | PKeyOrClose
  | PKey
  | PColon
  | PAfter
  | PDone jsval

text \<open>A value is complete: it is the result, or goes into the container on top.\<close>

fun complete :: "jsval \<Rightarrow> frame list \<Rightarrow> (pmode \<times> frame list) option" where
  "complete v [] = Some (PDone v, [])"
| "complete v (ArrF vs # st) = Some (PAfter, ArrF (v # vs) # st)"
| "complete v (KeyF k # ObjF ms # st) = Some (PAfter, ObjF ((k, v) # ms) # st)"
| "complete v st = None"

fun start_value :: "token \<Rightarrow> frame list \<Rightarrow> (pmode \<times> frame list) option" where
  "start_value (TStr s) st = complete (JStr s) st"
| "start_value (TNum n) st = complete (JNum n) st"
| "start_value TTrue st = complete (JBool True) st"
| "start_value TFalse st = complete (JBool False) st"
| "start_value TNull st = complete JNull st"
| "start_value TLBracket st = Some (PFirst, ArrF [] # st)"
| "start_value TLBrace st = Some (PKeyOrClose, ObjF [] # st)"
| "start_value t st = None"

fun pstep :: "pmode \<Rightarrow> frame list \<Rightarrow> token \<Rightarrow> (pmode \<times> frame list) option" where
  "pstep PValue st t = start_value t st"
| "pstep PFirst (ArrF vs # st) TRBracket = complete (JArr (rev vs)) st"
| "pstep PFirst st t = start_value t st"
| "pstep PKeyOrClose (ObjF ms # st) TRBrace = complete (JObj (rev ms)) st"
| "pstep PKeyOrClose st (TStr k) = Some (PColon, KeyF k # st)"
| "pstep PKey st (TStr k) = Some (PColon, KeyF k # st)"
| "pstep PColon st TColon = Some (PValue, st)"
| "pstep PAfter (ArrF vs # st) TComma = Some (PValue, ArrF vs # st)"
| "pstep PAfter (ObjF ms # st) TComma = Some (PKey, ObjF ms # st)"
| "pstep PAfter (ArrF vs # st) TRBracket = complete (JArr (rev vs)) st"
| "pstep PAfter (ObjF ms # st) TRBrace = complete (JObj (rev ms)) st"
| "pstep m st t = None"

fun prun :: "pmode \<Rightarrow> frame list \<Rightarrow> token list \<Rightarrow> jsval option" where
  "prun (PDone v) st [] = Some v"
| "prun m st [] = None"
| "prun m st (t # ts) =
     (case pstep m st t of None \<Rightarrow> None | Some (m', st') \<Rightarrow> prun m' st' ts)"

definition JSON_parse :: "jsstring \<Rightarrow> jsval option" where
  "JSON_parse s = (case lexer LNormal s of None \<Rightarrow> None | Some ts \<Rightarrow> prun PValue [] ts)"

section \<open>Validation of reply text\<close>

text \<open>
  The functions of this section are those of the Express server with validation (in the
  sources it follows the theme code of \<open>src/pages/Interview.tsx\<close>); \<open>extractJsonArray\<close>
  is the same in every file that has it.
\<close>

subsection \<open>extractJsonArray\<close>

text \<open>
  \<open>text.match(/\[[\s\S]*\]/)\<close>: the match starts at the first \<open>[\<close> and, the star being
  greedy, ends at the last \<open>]\<close> after it; there is no match when no \<open>]\<close> follows the
  first \<open>[\<close>.
\<close>

definition match_bracket_span :: "jsstring \<Rightarrow> jsstring option" where
  "match_bracket_span s =
     (case dropWhile (\<lambda>c. c \<noteq> 91) s of
        [] \<Rightarrow> None
      | b # r \<Rightarrow>
          (case dropWhile (\<lambda>c. c \<noteq> 93) (rev r) of
             [] \<Rightarrow> None
           | e # p \<Rightarrow> Some (b # rev (e # p))))"

text \<open>
  \<^verbatim>\<open>
  function extractJsonArray(text) {
    if (!text || typeof text !== 'string') return null;
    const match = text.match(/\[[\s\S]*\]/);
    if (!match) return null;
    try { return JSON.parse(match[0]); } catch (e) { return null; }
  }
  \<close>
\<close>

definition extractJsonArray :: "jsval \<Rightarrow> jsval" where
  "extractJsonArray text =
     (case text of
        JStr s \<Rightarrow>
          if s = [] then JNull
          else (case match_bracket_span s of
                  None \<Rightarrow> JNull
                | Some m \<Rightarrow> (case JSON_parse m of None \<Rightarrow> JNull | Some v \<Rightarrow> v))
      | _ \<Rightarrow> JNull)"

subsection \<open>isNumberedMarkdownList\<close>

text \<open>
  The code units \<open>\s\<close> matches and \<open>trim\<close> strips: tab, line feed, vertical tab, form
  feed, carriage return, space, no-break space, U+1680, U+2000 to U+200A, the line and
  paragraph separators, U+202F, U+205F, U+3000 and the byte order mark.
\<close>

definition is_space :: "nat \<Rightarrow> bool" where
  "is_space c =
     ((9 \<le> c \<and> c \<le> 13) \<or> c = 32 \<or> c = 160 \<or> c = 5760 \<or> (8192 \<le> c \<and> c \<le> 8202) \<or>
      c = 8232 \<or> c = 8233 \<or> c = 8239 \<or> c = 8287 \<or> c = 12288 \<or> c = 65279)"

definition trim :: "jsstring \<Rightarrow> jsstring" where
  "trim s = rev (dropWhile is_space (rev (dropWhile is_space s)))"

text \<open>
  \<open>text.split(/\r?\n/)\<close>: a line ends at a line feed; a carriage return right before
  it belongs to the separator.
\<close>

fun split_lines :: "jsstring \<Rightarrow> jsstring list" where
  "split_lines [] = [[]]"
| "split_lines [c] = (if c = 10 then [[], []] else [[c]])"
| "split_lines (c # d # cs) =
     (if c = 10 then [] # split_lines (d # cs)
      else if c = 13 \<and> d = 10 then [] # split_lines cs
      else (case split_lines (d # cs) of [] \<Rightarrow> [[c]] | l # ls \<Rightarrow> (c # l) # ls))"

text \<open>
  \<open>/^\d+\.[\s\-]/.test(l)\<close> and \<open>/^\d+\.\s+/.test(l)\<close>. The digit run is the longest
  one: the dot that must follow is no digit, so a shorter run never matches.
\<close>

definition re_number_dot_space_or_dash :: "jsstring \<Rightarrow> bool" where
  "re_number_dot_space_or_dash l =
     (takeWhile is_digit l \<noteq> [] \<and>
      (case dropWhile is_digit l of
         d # c # _ \<Rightarrow> d = 46 \<and> (is_space c \<or> c = 45)
       | _ \<Rightarrow> False))"

definition re_number_dot_spaces :: "jsstring \<Rightarrow> bool" where
  "re_number_dot_spaces l =
     (takeWhile is_digit l \<noteq> [] \<and>
      (case dropWhile is_digit l of
         d # r \<Rightarrow> d = 46 \<and> takeWhile is_space r \<noteq> []
       | _ \<Rightarrow> False))"

text \<open>
  \<^verbatim>\<open>
  function isNumberedMarkdownList(text) {
    if (!text || typeof text !== 'string') return false;
    const lines = text.split(/\r?\n/).map(l => l.trim()).filter(Boolean);
    if (lines.length === 0) return false;
    const numbered = lines.filter(l => /^\d+\.[\s\-]/.test(l) || /^\d+\.\s+/.test(l));
    return numbered.length >= Math.max(1, Math.floor(lines.length / 2));
  }
  \<close>
\<close>

definition isNumberedMarkdownList :: "jsval \<Rightarrow> bool" where
  "isNumberedMarkdownList text =
     (case text of
        JStr s \<Rightarrow>
          if s = [] then False
          else
            (let lines = filter (\<lambda>l. l \<noteq> []) (map trim (split_lines s))
             in if length lines = 0 then False
                else
                  (let numbered =
                         filter (\<lambda>l. re_number_dot_space_or_dash l \<or> re_number_dot_spaces l) lines
                   in max 1 (length lines div 2) \<le> length numbered))
      | _ \<Rightarrow> False)"

subsection \<open>The JSON schemas and their validators\<close>

text \<open>
  The schemas use four keywords of JSON Schema: \<open>type\<close> (string, array or object),
  \<open>items\<close> with \<open>minItems\<close> and \<open>maxItems\<close>, and \<open>properties\<close> with \<open>required\<close>.
  \<open>ajv.compile\<close> is the library's; \<open>ajv_validate\<close> is what the compiled validator
  decides for these keywords: a value must have the schema's type, a required property
  must be there, and a listed property is checked only when it is there.
\<close>

datatype schema =
    SString
  | SArray schema "nat option" "nat option"
  | SObject "(jsstring \<times> schema) list" "jsstring list"

definition obj_member :: "(jsstring \<times> jsval) list \<Rightarrow> jsstring \<Rightarrow> jsval" where
  "obj_member ms k = (case map_of (rev ms) k of None \<Rightarrow> JUndefined | Some v \<Rightarrow> v)"

fun ajv_validate :: "schema \<Rightarrow> jsval \<Rightarrow> bool"
  and ajv_properties :: "(jsstring \<times> schema) list \<Rightarrow> (jsstring \<times> jsval) list \<Rightarrow> bool" where
  "ajv_validate SString v = (case v of JStr s \<Rightarrow> True | _ \<Rightarrow> False)"
| "ajv_validate (SArray items minItems maxItems) v =
     (case v of
        JArr xs \<Rightarrow>
          (case minItems of None \<Rightarrow> True | Some n \<Rightarrow> n \<le> length xs) \<and>
          (case maxItems of None \<Rightarrow> True | Some n \<Rightarrow> length xs \<le> n) \<and>
          list_all (ajv_validate items) xs
      | _ \<Rightarrow> False)"
| "ajv_validate (SObject properties required) v =
     (case v of
        JObj ms \<Rightarrow>
          list_all (\<lambda>k. obj_member ms k \<noteq> JUndefined) required \<and> ajv_properties properties ms
      | _ \<Rightarrow> False)"
| "ajv_properties [] ms = True"
| "ajv_properties ((k, s) # ps) ms =
     ((obj_member ms k = JUndefined \<or> ajv_validate s (obj_member ms k)) \<and> ajv_properties ps ms)"

definition flashcardSchema :: schema where
  "flashcardSchema =
     SArray
       (SObject [(js ''question'', SString), (js ''answer'', SString)]
                [js ''question'', js ''answer''])
       None None"

definition quizSchema :: schema where
  "quizSchema =
     SArray
       (SObject
          [(js ''question'', SString),
           (js ''options'', SArray SString (Some 4) (Some 4)),
           (js ''correctAnswer'', SString),
           (js ''explanation'', SString)]
          [js ''question'', js ''options'', js ''correctAnswer'', js ''explanation''])
       None None"

definition companySchema :: schema where
  "companySchema =
     SArray
       (SObject [(js ''question'', SString), (js ''answer'', SString)]
                [js ''question'', js ''answer''])
       None None"

definition validateFlashcards :: "jsval \<Rightarrow> bool" where
  "validateFlashcards = ajv_validate flashcardSchema"

definition validateQuiz :: "jsval \<Rightarrow> bool" where
  "validateQuiz = ajv_validate quizSchema"

definition validateCompany :: "jsval \<Rightarrow> bool" where
  "validateCompany = ajv_validate companySchema"

section \<open>The remote endpoint\<close>

text \<open>
  What one \<open>fetch\<close> of the generation endpoint gives: the promise is rejected (a network
  failure), or there is a response with a status, possibly a \<open>retry-after\<close> header, a body
  text (\<open>response.text()\<close>) and the body as parsed JSON (\<open>response.json()\<close>, \<open>None\<close> when
  the body is no JSON and the call throws). The endpoint is a function from the number of
  the call (0 for the first \<open>fetch\<close> of a run) to what that call gives: any run of the
  code against any endpoint is a run against such a function.
\<close>

record response =
  status :: nat
  retry_after :: "jsstring option"
  body_text :: jsstring
  body_json :: "jsval option"

datatype fetch_result = Rejected jsstring | Response response

definition ok :: "response \<Rightarrow> bool" where
  "ok r = (200 \<le> status r \<and> status r \<le> 299)"

text \<open>
  The numbers the code computes for its waits. A double holds an integer exactly when it
  is a safe integer, of magnitude at most \<open>2^53 - 1\<close>; the model computes with these.
  \<open>NaN\<close> is what \<open>parseInt\<close> gives for a string without digits. \<open>Unsafe\<close> stands for a
  double outside the safe integers: the code goes on with a rounded value there, which
  the model leaves open.
\<close>

datatype js_number = Num int | NaN | Unsafe

definition safe :: "int \<Rightarrow> js_number" where
  "safe n = (if \<bar>n\<bar> \<le> 2 ^ 53 - 1 then Num n else Unsafe)"

text \<open>\<open>x * k\<close> for an integer constant \<open>k\<close>.\<close>

definition times :: "js_number \<Rightarrow> int \<Rightarrow> js_number" where
  "times x k = (case x of Num n \<Rightarrow> safe (n * k) | NaN \<Rightarrow> NaN | Unsafe \<Rightarrow> Unsafe)"

text \<open>
  What the code leaves behind: the number of \<open>fetch\<close> calls made, the prompts sent with
  them, the waits passed to \<open>sleep\<close> in milliseconds and the entries appended to the log
  of bad responses. Console output is not modelled.
\<close>

record bad_response =
  log_endpoint :: jsstring
  log_prompt :: jsstring
  log_response :: jsstring

record world =
  fetches :: nat
  sent :: "jsstring list"
  sleeps :: "js_number list"
  bad_responses :: "bad_response list"

definition world0 :: world where
  "world0 = \<lparr>fetches = 0, sent = [], sleeps = [], bad_responses = []\<rparr>"

text \<open>
  \<^verbatim>\<open>
  const data = await response.json();
  if (data.candidates && data.candidates[0] && data.candidates[0].content) {
    return data.candidates[0].content.parts[0].text;
  }
  throw new Error('Invalid response format from Gemini API');
  \<close>
  Every property read can throw a TypeError; the guard reads down to \<open>content\<close>.
\<close>

definition candidate_text :: "jsval \<Rightarrow> error + jsval" where
  "candidate_text data =
     (case get_prop data (js ''candidates'') of
        Inl e \<Rightarrow> Inl e
      | Inr candidates \<Rightarrow>
          if \<not> truthy candidates then Inl InvalidResponseFormat
          else
            (case get_index0 candidates of
               Inl e \<Rightarrow> Inl e
             | Inr c0 \<Rightarrow>
                 if \<not> truthy c0 then Inl InvalidResponseFormat
                 else
                   (case get_prop c0 (js ''content'') of
                      Inl e \<Rightarrow> Inl e
                    | Inr content \<Rightarrow>
                        if \<not> truthy content then Inl InvalidResponseFormat
                        else
                          (case get_prop content (js ''parts'') of
                             Inl e \<Rightarrow> Inl e
                           | Inr parts \<Rightarrow>
                               (case get_index0 parts of
                                  Inl e \<Rightarrow> Inl e
                                | Inr p0 \<Rightarrow> get_prop p0 (js ''text''))))))"

section \<open>The retrying client\<close>

text \<open>
  \<open>callGeminiAPI\<close> with retries, as both serverless handlers of \<open>unnamed/part_000\<close>
  have it (the one for a prompt and the one for flashcards).
\<close>

definition maxRetries :: nat where
  "maxRetries = 3"

text \<open>
  \<open>parseInt(s, 10)\<close>: leading white space is skipped, then an optional sign, then the
  longest run of decimal digits is read, whatever follows it; with no digit the result is
  NaN.
\<close>

definition parseInt10 :: "jsstring \<Rightarrow> js_number" where
  "parseInt10 s =
     (let t = dropWhile is_space s;
          neg = (case t of [] \<Rightarrow> False | c # r \<Rightarrow> c = 45);
          u = (case t of [] \<Rightarrow> [] | c # r \<Rightarrow> if c = 45 \<or> c = 43 then r else t);
          ds = takeWhile is_digit u
      in if ds = [] then NaN
         else safe ((if neg then - 1 else 1) * int (decimal_value ds)))"

text \<open>\<open>Math.pow(2, attempt) * 1000\<close>\<close>

definition backoff :: "nat \<Rightarrow> js_number" where
  "backoff attempt = times (safe (2 ^ attempt)) 1000"

text \<open>
  \<open>retryAfter ? parseInt(retryAfter, 10) * 1000 : Math.pow(2, attempt) * 1000\<close>, where
  \<open>retryAfter\<close> is the header's value or \<open>null\<close>; an empty value is falsy.
\<close>

definition rate_limit_wait :: "jsstring option \<Rightarrow> nat \<Rightarrow> js_number" where
  "rate_limit_wait retryAfter attempt =
     (case retryAfter of
        None \<Rightarrow> backoff attempt
      | Some s \<Rightarrow> if s \<noteq> [] then times (parseInt10 s) 1000 else backoff attempt)"

text \<open>
  The body of the \<open>try\<close> block: it returns the text, or waits and continues (status 429
  with attempts left), or throws.
  \<^verbatim>\<open>
  const response = await fetch(GEMINI_API_URL, { ... });
  if (!response.ok) {
    const status = response.status;
    const text = await response.text();
    if (status === 429 && attempt < maxRetries) {
      const retryAfter = response.headers && response.headers.get
        ? response.headers.get('retry-after') : null;
      const waitMs = retryAfter ? parseInt(retryAfter, 10) * 1000 : Math.pow(2, attempt) * 1000;
      await sleep(waitMs); attempt++; continue;
    }
    throw new Error(`Gemini API error: ${status} ${text}`);
  }
  const data = await response.json();
  ...
  \<close>
\<close>

datatype outcome = Return jsval | Continue429 js_number | Throw error

definition try_block :: "fetch_result \<Rightarrow> nat \<Rightarrow> outcome" where
  "try_block r attempt =
     (case r of
        Rejected msg \<Rightarrow> Throw (NetworkError msg)
      | Response resp \<Rightarrow>
          if \<not> ok resp then
            (if status resp = 429 \<and> attempt < maxRetries
             then Continue429 (rate_limit_wait (retry_after resp) attempt)
             else Throw (HttpError (status resp) (body_text resp)))
          else
            (case body_json resp of
               None \<Rightarrow> Throw SyntaxError
             | Some data \<Rightarrow>
                 (case candidate_text data of Inl e \<Rightarrow> Throw e | Inr v \<Rightarrow> Return v)))"

text \<open>
  \<^verbatim>\<open>
  while (attempt <= maxRetries) {
    try { ... }
    catch (err) {
      lastError = err;
      if (attempt < maxRetries) {
        const waitMs = Math.pow(2, attempt) * 1000;
        await sleep(waitMs); attempt++; continue;
      }
      throw lastError;
    }
  }
  throw lastError || new Error('Unknown Gemini API error');
  \<close>
\<close>

function callGeminiAPI_loop ::
  "(nat \<Rightarrow> fetch_result) \<Rightarrow> jsstring \<Rightarrow> nat \<Rightarrow> error option \<Rightarrow> world \<Rightarrow> (error + jsval) \<times> world"
where
  "callGeminiAPI_loop fetch prompt attempt lastError w =
     (if attempt \<le> maxRetries then
        (let w1 = w\<lparr>fetches := fetches w + 1, sent := sent w @ [prompt]\<rparr>
         in case try_block (fetch (fetches w)) attempt of
              Return v \<Rightarrow> (Inr v, w1)
            | Continue429 waitMs \<Rightarrow>
                callGeminiAPI_loop fetch prompt (attempt + 1) lastError
                  (w1\<lparr>sleeps := sleeps w1 @ [waitMs]\<rparr>)
            | Throw err \<Rightarrow>
                if attempt < maxRetries then
                  callGeminiAPI_loop fetch prompt (attempt + 1) (Some err)
                    (w1\<lparr>sleeps := sleeps w1 @ [backoff attempt]\<rparr>)
                else (Inl err, w1))
      else (Inl (case lastError of None \<Rightarrow> UnknownError | Some e \<Rightarrow> e), w))"
  by pat_completeness auto
termination
  by (relation "measure (\<lambda>(fetch, prompt, attempt, lastError, w). maxRetries + 1 - attempt)") auto

definition callGeminiAPI :: "(nat \<Rightarrow> fetch_result) \<Rightarrow> jsstring \<Rightarrow> (error + jsval) \<times> world" where
  "callGeminiAPI fetch prompt = callGeminiAPI_loop fetch prompt 0 None world0"

text \<open>
  The handler for a prompt, on a POST request: a missing prompt is a 400, the text is a
  200 with \<open>{response}\<close>, and an error thrown by \<open>callGeminiAPI\<close> is a 500.
\<close>

datatype http_reply =
    BadRequest jsstring
  | Ok200 jsval "jsstring option"
  | ServerError error

definition ask_handler :: "(nat \<Rightarrow> fetch_result) \<Rightarrow> jsstring \<Rightarrow> http_reply \<times> world" where
  "ask_handler fetch prompt =
     (if prompt = [] then (BadRequest (js ''Prompt is required''), world0)
      else (case callGeminiAPI fetch prompt of
              (Inr response, w) \<Rightarrow> (Ok200 response None, w)
            | (Inl e, w) \<Rightarrow> (ServerError e, w)))"

section \<open>The validating server\<close>

text \<open>
  The Express server with \<open>callGeminiWithRetry\<close>, the schemas and the three routes.
\<close>

subsection \<open>callGeminiAPI, without retries\<close>

text \<open>
  The server's own \<open>callGeminiAPI\<close> makes one \<open>fetch\<close>; a status outside 2xx throws
  \<open>Gemini API error: <status>\<close>, and the \<open>catch\<close> block logs and rethrows.
\<close>

definition server_callGeminiAPI ::
  "(nat \<Rightarrow> fetch_result) \<Rightarrow> jsstring \<Rightarrow> world \<Rightarrow> (error + jsval) \<times> world"
where
  "server_callGeminiAPI fetch prompt w =
     (let w1 = w\<lparr>fetches := fetches w + 1, sent := sent w @ [prompt]\<rparr>
      in case fetch (fetches w) of
           Rejected msg \<Rightarrow> (Inl (NetworkError msg), w1)
         | Response resp \<Rightarrow>
             if \<not> ok resp then (Inl (HttpError (status resp) []), w1)
             else (case body_json resp of
                     None \<Rightarrow> (Inl SyntaxError, w1)
                   | Some data \<Rightarrow> (candidate_text data, w1)))"

subsection \<open>callGeminiWithRetry\<close>

datatype expect = ExpectAny | ExpectJson | ExpectMarkdownList

definition maxTries :: nat where
  "maxTries = 2"

text \<open>
  The instruction appended to the prompt before the second try. The last one is that of
  the final \<open>else\<close>, for an expectation other than \<open>json\<close> and \<open>markdownList\<close>; with
  \<open>any\<close> the function has returned before.
\<close>

definition strengthen :: "expect \<Rightarrow> jsstring" where
  \<open>strengthen e =
     (case e of
        ExpectJson \<Rightarrow>
          js (''\<newline>\<newline>IMPORTANT: Return ONLY the raw JSON array exactly as shown in the example. '' @
              ''Do not include any surrounding backticks, commentary, or numbered lists. '' @
              ''If you cannot, reply with an empty array [].'')
      | ExpectMarkdownList \<Rightarrow>
          js (''\<newline>\<newline>IMPORTANT: When providing step-by-step instructions, return a numbered '' @
              ''Markdown list (example:\<newline>1. Step one\<newline>2. Step two). '' @
              ''Do not add extra commentary or code fences. Return only the list.'')
      | ExpectAny \<Rightarrow>
          js ''\<newline>\<newline>Please respond concisely and avoid extra commentary.'')\<close>

text \<open>
  \<^verbatim>\<open>
  for (let attempt = 1; attempt <= maxTries; attempt++) {
    try {
      const text = await callGeminiAPI(prompt);
      lastText = text;
      if (options.expect === 'any') return text;
      if (options.expect === 'json') { if (extractJsonArray(text)) return text; }
      if (options.expect === 'markdownList') { if (isNumberedMarkdownList(text)) return text; }
      if (attempt < maxTries) prompt = prompt + <the strengthening instruction>;
    } catch (err) {
      lastText = null;
      if (attempt >= maxTries) break;
    }
  }
  return lastText;
  \<close>
\<close>

function callGeminiWithRetry_loop ::
  "(nat \<Rightarrow> fetch_result) \<Rightarrow> expect \<Rightarrow> nat \<Rightarrow> jsstring \<Rightarrow> jsval \<Rightarrow> world \<Rightarrow> jsval \<times> world"
where
  "callGeminiWithRetry_loop fetch e attempt prompt lastText w =
     (if attempt \<le> maxTries then
        (case server_callGeminiAPI fetch prompt w of
           (Inr text, w1) \<Rightarrow>
             if e = ExpectAny then (text, w1)
             else if e = ExpectJson \<and> truthy (extractJsonArray text) then (text, w1)
             else if e = ExpectMarkdownList \<and> isNumberedMarkdownList text then (text, w1)
             else
               callGeminiWithRetry_loop fetch e (attempt + 1)
                 (if attempt < maxTries then prompt @ strengthen e else prompt) text w1
         | (Inl err, w1) \<Rightarrow>
             if attempt \<ge> maxTries then (JNull, w1)
             else callGeminiWithRetry_loop fetch e (attempt + 1) prompt JNull w1)
      else (lastText, w))"
  by pat_completeness auto
termination
  by (relation "measure (\<lambda>(fetch, e, attempt, prompt, lastText, w). maxTries + 1 - attempt)") auto

definition callGeminiWithRetry ::
  "(nat \<Rightarrow> fetch_result) \<Rightarrow> jsstring \<Rightarrow> expect \<Rightarrow> world \<Rightarrow> jsval \<times> world"
where
  "callGeminiWithRetry fetch prompt e w = callGeminiWithRetry_loop fetch e 1 prompt JNull w"

subsection \<open>logBadResponse\<close>

text \<open>
  The entry keeps the first 500 code units of the prompt and the first 2000 of
  \<open>response || ''\<close>; calling \<open>substring\<close> on a value that is no string throws a TypeError.
  The timestamp is left out.
\<close>

definition logBadResponse :: "jsstring \<Rightarrow> jsstring \<Rightarrow> jsval \<Rightarrow> world \<Rightarrow> error + world" where
  "logBadResponse endpoint prompt response w =
     (case js_or response (JStr []) of
        JStr r \<Rightarrow>
          Inr (w\<lparr>bad_responses := bad_responses w @
                 [\<lparr>log_endpoint = endpoint, log_prompt = take 500 prompt,
                   log_response = take 2000 r\<rparr>]\<rparr>)
      | _ \<Rightarrow> Inl TypeError)"

subsection \<open>The routes\<close>

fun starts_with :: "jsstring \<Rightarrow> jsstring \<Rightarrow> bool" where
  "starts_with s [] = True"
| "starts_with [] (p # ps) = False"
| "starts_with (c # cs) (p # ps) = (c = p \<and> starts_with cs ps)"

fun contains :: "jsstring \<Rightarrow> jsstring \<Rightarrow> bool" where
  "contains [] pat = starts_with [] pat"
| "contains (c # cs) pat = (starts_with (c # cs) pat \<or> contains cs pat)"

definition to_lower_ascii :: "nat \<Rightarrow> nat" where
  "to_lower_ascii c = (if 65 \<le> c \<and> c \<le> 90 then c + 32 else c)"

text \<open>
  \<open>/step|steps|step-by-step|stepwise|procedure/i.test(prompt)\<close>. Without the \<open>u\<close> flag, a
  letter of the pattern matches its two ASCII cases only.
\<close>

definition re_step :: "jsstring \<Rightarrow> bool" where
  "re_step prompt =
     (let l = map to_lower_ascii prompt
      in contains l (js ''step'') \<or> contains l (js ''steps'') \<or>
         contains l (js ''step-by-step'') \<or> contains l (js ''stepwise'') \<or>
         contains l (js ''procedure''))"

definition ask_list_instruction :: jsstring where
  \<open>ask_list_instruction =
     js (''\<newline>\<newline>When you provide step-by-step instructions, return them as a numbered '' @
         ''Markdown list (\<newline>1. Step one\<newline>2. Step two\<newline>) with a blank line between items. '' @
         ''Do not include extra commentary.'')\<close>

definition warning_text :: jsstring where
  "warning_text = js ''AI output could not be validated; returned raw text.''"

text \<open>\<open>app.post('/api/ask', ...)\<close>\<close>

definition server_ask :: "(nat \<Rightarrow> fetch_result) \<Rightarrow> jsstring \<Rightarrow> world \<Rightarrow> http_reply \<times> world" where
  "server_ask fetch prompt w =
     (if prompt = [] then (BadRequest (js ''Prompt is required''), w)
      else
        (let expectMarkdownList = re_step prompt;
             finalPrompt = (if expectMarkdownList then prompt @ ask_list_instruction else prompt)
         in case callGeminiWithRetry fetch finalPrompt
                   (if expectMarkdownList then ExpectMarkdownList else ExpectAny) w of
              (response, w1) \<Rightarrow> (Ok200 response None, w1)))"

text \<open>
  The prompt of \<open>/api/flashcards\<close>. Where one expects a dash before
  \<open>just the raw JSON array\<close>, the source file holds the three code units U+00E2, U+20AC
  and U+201D.
\<close>

definition flashcards_prompt :: "jsstring \<Rightarrow> jsstring" where
  \<open>flashcards_prompt topic =
     js ''Generate 6 educational flashcards for the topic: "'' @ topic @ js (''". \<newline>\<newline>'' @
       ''Format your response as a valid JSON array of objects, where each object has '' @
       ''"question" and "answer" properties. Make sure the questions are clear and the '' @
       ''answers are informative but concise.\<newline>\<newline>'' @
       ''IMPORTANT: Return ONLY the JSON array, with no surrounding backticks, commentary, '' @
       ''or numbered lists '') @ [226, 8364, 8221] @ js ('' just the raw JSON array.\<newline>\<newline>'' @
       ''Example format:\<newline>[\<newline>  {\<newline>'' @
       ''    "question": "What is the main concept?",\<newline>'' @
       ''    "answer": "The main concept is..."\<newline>  }\<newline>]\<newline>\<newline>Topic: '') @ topic\<close>

definition retry_instruction :: jsstring where
  \<open>retry_instruction =
     js ''\<newline>\<newline>IMPORTANT: Return ONLY the raw JSON array exactly as shown. No commentary.''\<close>

text \<open>
  The body shared by \<open>/api/flashcards\<close> and \<open>/api/quiz\<close> after the prompt is built:
  \<^verbatim>\<open>
  let response = await callGeminiWithRetry(prompt, { expect: 'json' });
  const parsed = extractJsonArray(response || '');
  if (!parsed || !validate(parsed)) {
    logBadResponse(endpoint, prompt, response);
    const retry = await callGeminiWithRetry(prompt + <retry instruction>, { expect: 'json' });
    const parsed2 = extractJsonArray(retry || '');
    if (parsed2 && validate(parsed2)) { response = retry; }
    else { return res.json({ response, warning: '...' }); }
  }
  res.json({ response });
  \<close>
  An error thrown inside is caught by the route and answered with a 500.
\<close>

definition json_route ::
  "(nat \<Rightarrow> fetch_result) \<Rightarrow> jsstring \<Rightarrow> (jsval \<Rightarrow> bool) \<Rightarrow> jsstring \<Rightarrow> world \<Rightarrow> http_reply \<times> world"
where
  "json_route fetch endpoint validate prompt w =
     (case callGeminiWithRetry fetch prompt ExpectJson w of
        (response, w1) \<Rightarrow>
          (let parsed = extractJsonArray (js_or response (JStr []))
           in if \<not> truthy parsed \<or> \<not> validate parsed then
                (case logBadResponse endpoint prompt response w1 of
                   Inl err \<Rightarrow> (ServerError err, w1)
                 | Inr w2 \<Rightarrow>
                     (case callGeminiWithRetry fetch (prompt @ retry_instruction) ExpectJson w2 of
                        (retry, w3) \<Rightarrow>
                          (let parsed2 = extractJsonArray (js_or retry (JStr []))
                           in if truthy parsed2 \<and> validate parsed2 then (Ok200 retry None, w3)
                              else (Ok200 response (Some warning_text), w3))))
              else (Ok200 response None, w1)))"

text \<open>\<open>app.post('/api/flashcards', ...)\<close>\<close>

definition server_flashcards ::
  "(nat \<Rightarrow> fetch_result) \<Rightarrow> jsstring \<Rightarrow> world \<Rightarrow> http_reply \<times> world"
where
  "server_flashcards fetch topic w =
     (if topic = [] then (BadRequest (js ''Topic is required''), w)
      else json_route fetch (js ''/api/flashcards'') validateFlashcards (flashcards_prompt topic) w)"

definition quiz_prompt :: "jsstring \<Rightarrow> jsstring" where
  \<open>quiz_prompt topic =
     js ''Generate 5 multiple choice quiz questions for the topic: "'' @ topic @ js (''". \<newline>\<newline>'' @
       ''Format your response as a valid JSON array of objects, where each object has:\<newline>'' @
       ''- "question": the quiz question\<newline>'' @
       ''- "options": array of 4 possible answers\<newline>'' @
       ''- "correctAnswer": the correct answer (must match one of the options exactly)\<newline>'' @
       ''- "explanation": brief explanation of why the answer is correct\<newline>\<newline>'' @
       ''Return ONLY the JSON array, no additional text or formatting.\<newline>\<newline>'' @
       ''Example format:\<newline>[\<newline>  {\<newline>'' @
       ''    "question": "What is...?",\<newline>'' @
       ''    "options": ["Option A", "Option B", "Option C", "Option D"],\<newline>'' @
       ''    "correctAnswer": "Option B",\<newline>'' @
       ''    "explanation": "Option B is correct because..."\<newline>  }\<newline>]\<newline>\<newline>Topic: '') @ topic\<close>

definition quiz_instruction :: jsstring where
  \<open>quiz_instruction =
     js (''\<newline>\<newline>IMPORTANT: Return ONLY the JSON array, with no extra text, numbered lists, '' @
         ''or markdown. Use the exact keys shown in the example.'')\<close>

text \<open>\<open>app.post('/api/quiz', ...)\<close>\<close>

definition server_quiz ::
  "(nat \<Rightarrow> fetch_result) \<Rightarrow> jsstring \<Rightarrow> world \<Rightarrow> http_reply \<times> world"
where
  "server_quiz fetch topic w =
     (if topic = [] then (BadRequest (js ''Topic is required''), w)
      else json_route fetch (js ''/api/quiz'') validateQuiz (quiz_prompt topic @ quiz_instruction) w)"

section \<open>Vocabulary of the properties\<close>

text \<open>
  What the server's \<open>callGeminiAPI\<close> returns or throws for what its one \<open>fetch\<close> gave.
\<close>

definition reply_text :: "fetch_result \<Rightarrow> error + jsval" where
  "reply_text r =
     (case r of
        Rejected msg \<Rightarrow> Inl (NetworkError msg)
      | Response resp \<Rightarrow>
          if \<not> ok resp then Inl (HttpError (status resp) [])
          else (case body_json resp of None \<Rightarrow> Inl SyntaxError | Some data \<Rightarrow> candidate_text data))"

text \<open>The checks under which \<open>callGeminiWithRetry\<close> returns a text at once.\<close>

definition accepts :: "expect \<Rightarrow> jsval \<Rightarrow> bool" where
  "accepts e text =
     (e = ExpectAny \<or> (e = ExpectJson \<and> truthy (extractJsonArray text)) \<or>
      (e = ExpectMarkdownList \<and> isNumberedMarkdownList text))"

text \<open>The check of a route on the text it is about to return.\<close>

definition passes :: "(jsval \<Rightarrow> bool) \<Rightarrow> jsval \<Rightarrow> bool" where
  "passes validate response =
     (truthy (extractJsonArray (js_or response (JStr []))) \<and>
      validate (extractJsonArray (js_or response (JStr []))))"

text \<open>
  What \<open>callGeminiWithRetry\<close> is left with after its last try: the text the call
  returned, or \<open>null\<close> when the call threw. A try fails when the call throws or its text
  does not pass the check.
\<close>

definition last_try :: "error + jsval \<Rightarrow> jsval" where
  "last_try x = (case x of Inr t \<Rightarrow> t | Inl err \<Rightarrow> JNull)"

definition try_fails :: "expect \<Rightarrow> error + jsval \<Rightarrow> bool" where
  "try_fails e x = (case x of Inr t \<Rightarrow> \<not> accepts e t | Inl err \<Rightarrow> True)"

text \<open>The world after model calls with the prompts \<open>ps\<close>, in this order.\<close>

definition called :: "world \<Rightarrow> jsstring list \<Rightarrow> world" where
  "called w ps = w\<lparr>fetches := fetches w + length ps, sent := sent w @ ps\<rparr>"

definition logged :: "world \<Rightarrow> jsstring \<Rightarrow> jsstring \<Rightarrow> jsstring \<Rightarrow> world" where
  "logged w endpoint prompt r =
     w\<lparr>bad_responses := bad_responses w @
         [\<lparr>log_endpoint = endpoint, log_prompt = take 500 prompt, log_response = take 2000 r\<rparr>]\<rparr>"

text \<open>
  Endpoints for examples: a well-formed 200 reply whose first candidate's first part
  carries \<open>t\<close>, a reply with a status and possibly a \<open>retry-after\<close> header and no JSON
  body, and the endpoint that gives the listed results in turn and then refuses the
  connection.
\<close>

definition gemini_reply :: "jsval \<Rightarrow> fetch_result" where
  "gemini_reply t =
     Response \<lparr>status = 200, retry_after = None, body_text = [],
       body_json = Some (JObj [(js ''candidates'',
         JArr [JObj [(js ''content'', JObj [(js ''parts'', JArr [JObj [(js ''text'', t)]])])]])])\<rparr>"

definition status_reply :: "nat \<Rightarrow> jsstring option \<Rightarrow> fetch_result" where
  "status_reply s h = Response \<lparr>status = s, retry_after = h, body_text = [], body_json = None\<rparr>"

definition replies :: "fetch_result list \<Rightarrow> nat \<Rightarrow> fetch_result" where
  "replies rs k = (if k < length rs then rs ! k else Rejected (js ''ECONNRESET''))"

text \<open>
  The numbered-list rule in the specification's words, stated without the code's
  functions. The lines of a text are the pieces between its line feeds: \<open>ls\<close> are the
  lines of \<open>text\<close> when no line holds a line feed and the lines, joined by line feeds,
  give the text back. (A carriage return before a line feed is white space at the end of
  its line.) \<open>t\<close> is the line \<open>l\<close> trimmed when \<open>l\<close> is \<open>t\<close> between two runs of white
  space and \<open>t\<close> neither starts nor ends with white space. A line is numbered when it
  starts with an integer immediately followed by a dot and a white space or a dash. A text
  is a numbered list when, of its \<open>n\<close> non-empty trimmed lines, at least
  \<open>max 1 (n div 2)\<close> are numbered.
\<close>

fun join_lf :: "jsstring list \<Rightarrow> jsstring" where
  "join_lf [] = []"
| "join_lf [l] = l"
| "join_lf (l # m # ls) = l @ 10 # join_lf (m # ls)"

definition text_lines :: "jsstring \<Rightarrow> jsstring list \<Rightarrow> bool" where
  "text_lines text ls = (ls \<noteq> [] \<and> (\<forall>l\<in>set ls. 10 \<notin> set l) \<and> join_lf ls = text)"

definition trimmed :: "jsstring \<Rightarrow> jsstring \<Rightarrow> bool" where
  "trimmed l t =
     ((\<exists>a b. l = a @ t @ b \<and> list_all is_space a \<and> list_all is_space b) \<and>
      (t \<noteq> [] \<longrightarrow> \<not> is_space (hd t) \<and> \<not> is_space (last t)))"

definition numbered_line :: "jsstring \<Rightarrow> bool" where
  "numbered_line l =
     (\<exists>ds c rest. l = ds @ 46 # c # rest \<and> ds \<noteq> [] \<and> list_all is_digit ds \<and>
                   (is_space c \<or> c = 45))"

definition numbered_list_rule :: "jsstring \<Rightarrow> bool" where
  "numbered_list_rule text =
     (\<exists>ls ts. text_lines text ls \<and> list_all2 trimmed ls ts \<and>
        (let kept = filter (\<lambda>t. t \<noteq> []) ts;
             n = length kept
         in max 1 (n div 2) \<le> length (filter numbered_line kept)))"

text \<open>
  The quiz invariant in the specification's words: the payload is an array, each element
  carries the four fields, \<open>options\<close> has exactly 4 entries and \<open>correctAnswer\<close> is one of
  them.
\<close>

definition quiz_item_fields :: "jsval \<Rightarrow> bool" where
  "quiz_item_fields item =
     (\<exists>ms q opts c x.
        item = JObj ms \<and>
        obj_member ms (js ''question'') = JStr q \<and>
        obj_member ms (js ''options'') = JArr opts \<and> length opts = 4 \<and>
        list_all (\<lambda>v. \<exists>s. v = JStr s) opts \<and>
        obj_member ms (js ''correctAnswer'') = JStr c \<and>
        obj_member ms (js ''explanation'') = JStr x)"

definition quiz_answer_among_options :: "jsval \<Rightarrow> bool" where
  "quiz_answer_among_options item =
     (\<exists>ms opts.
        item = JObj ms \<and> obj_member ms (js ''options'') = JArr opts \<and>
        obj_member ms (js ''correctAnswer'') \<in> set opts)"

definition quiz_invariant :: "jsval \<Rightarrow> bool" where
  "quiz_invariant payload =
     (\<exists>items. payload = JArr items \<and>
        list_all (\<lambda>item. quiz_item_fields item \<and> quiz_answer_among_options item) items)"

text \<open>The texts of the examples.\<close>

definition chatty_reply :: jsstring where
  \<open>chatty_reply = js ''Sure! [{"question":"Q","answer":"A"}] thanks''\<close>

definition three_steps :: jsstring where
  \<open>three_steps = js ''1. Do X\<newline>2. Do Y\<newline>3. Do Z''\<close>

text \<open>
  A numbered line behind two spaces; and three lines, the second ended by a carriage
  return and a line feed, of which the last one is numbered.
\<close>

definition indented_step :: jsstring where
  "indented_step = js ''  1. a''"

definition one_step_of_three :: jsstring where
  "one_step_of_three = js ''a'' @ [10] @ js ''b'' @ [13, 10] @ js ''1. x''"

definition quiz_wrong_answer :: jsstring where
  \<open>quiz_wrong_answer =
     js (''[{"question":"Q","options":["a","b","c","d"],'' @
         ''"correctAnswer":"z","explanation":"E"}]'')\<close>

definition mix_bake :: "nat \<Rightarrow> fetch_result" where
  "mix_bake = replies [gemini_reply (JStr (js ''Mix it'')), gemini_reply (JStr (js ''Bake it''))]"

text \<open>
  Endpoints whose first reply is no numbered list (no JSON array) and whose second call
  is refused, or answered with the empty text.
\<close>

definition mix_then_refused :: "nat \<Rightarrow> fetch_result" where
  "mix_then_refused = replies [gemini_reply (JStr (js ''Mix it''))]"

definition mix_then_empty :: "nat \<Rightarrow> fetch_result" where
  "mix_then_empty = replies [gemini_reply (JStr (js ''Mix it'')), gemini_reply (JStr [])]"

definition no_list_then_refused :: "nat \<Rightarrow> fetch_result" where
  "no_list_then_refused = replies [gemini_reply (JStr (js ''no list''))]"

definition reply_without_text :: fetch_result where
  "reply_without_text =
     Response \<lparr>status = 200, retry_after = None, body_text = [],
       body_json = Some (JObj [(js ''candidates'',
         JArr [JObj [(js ''content'', JObj [(js ''parts'', JArr [JObj []])])]])])\<rparr>"

definition limited_twice :: "nat \<Rightarrow> fetch_result" where
  "limited_twice =
     replies [status_reply 429 (Some (js ''5'')), status_reply 429 None,
              gemini_reply (JStr (js ''ok''))]"

text \<open>
  An endpoint that limits the first call and names a date in its \<open>retry-after\<close> header,
  then answers; and the same with the header \<open>5.5\<close>.
\<close>

definition http_date :: jsstring where
  "http_date = js ''Wed, 21 Oct 2015 07:28:00 GMT''"

definition limited_until_date :: "nat \<Rightarrow> fetch_result" where
  "limited_until_date = replies [status_reply 429 (Some http_date), gemini_reply (JStr (js ''ok''))]"

definition limited_five_and_a_half :: "nat \<Rightarrow> fetch_result" where
  "limited_five_and_a_half =
     replies [status_reply 429 (Some (js ''5.5'')), gemini_reply (JStr (js ''ok''))]"

section \<open>Evaluation of the examples\<close>

lemmas lex_defs = js_def is_json_ws_def is_num_start_def is_num_char_def is_digit_def is_word_char_def
  punct_def cons_tok_def hex_val_def unescape_def word_token_def valid_number_def valid_frac_exp_def valid_exp_def

lemmas text_defs = match_bracket_span_def extractJsonArray_def JSON_parse_def isNumberedMarkdownList_def
  trim_def is_space_def re_number_dot_space_or_dash_def re_number_dot_spaces_def

lemmas schema_defs = validateFlashcards_def validateQuiz_def flashcardSchema_def quizSchema_def obj_member_def

lemma reply_text_gemini_reply [simp]: "reply_text (gemini_reply t) = Inr t"
  by (simp add: reply_text_def gemini_reply_def ok_def candidate_text_def js_def)

lemma chatty_span:
  \<open>match_bracket_span chatty_reply = Some (js ''[{"question":"Q","answer":"A"}]'')\<close>
  by (simp add: chatty_reply_def lex_defs text_defs)

lemma chatty_extract:
  "extractJsonArray (JStr chatty_reply) =
     JArr [JObj [(js ''question'', JStr (js ''Q'')), (js ''answer'', JStr (js ''A''))]]"
  by (simp add: chatty_reply_def lex_defs text_defs)

lemma chatty_valid: "validateFlashcards (extractJsonArray (JStr chatty_reply))"
  by (simp add: chatty_extract schema_defs js_def)

lemma empty_array_extract: "extractJsonArray (JStr (js ''[]'')) = JArr []"
  by (simp add: lex_defs text_defs)

lemma empty_array_valid: "validateFlashcards (JArr [])"
  by (simp add: schema_defs)

lemma three_steps_numbered: "isNumberedMarkdownList (JStr three_steps)"
  by (simp add: three_steps_def lex_defs text_defs)

lemma not_numbered_examples:
  "\<not> isNumberedMarkdownList (JStr (js ''Mix it''))"
  "\<not> isNumberedMarkdownList (JStr (js ''Bake it''))"
  by (simp_all add: lex_defs text_defs)

lemma more_numbered_examples:
  "isNumberedMarkdownList (JStr indented_step)"
  "isNumberedMarkdownList (JStr one_step_of_three)"
  "\<not> re_number_dot_space_or_dash indented_step"
  "\<not> re_number_dot_space_or_dash one_step_of_three"
  by (simp_all add: indented_step_def one_step_of_three_def lex_defs text_defs)

lemma no_list: "\<not> accepts ExpectJson (JStr (js ''no list''))"
  by (simp add: accepts_def lex_defs text_defs)

lemma quiz_wrong_extract: "validateQuiz (extractJsonArray (JStr quiz_wrong_answer))"
  by (simp add: quiz_wrong_answer_def lex_defs text_defs schema_defs)

lemma quiz_wrong_parsed:
  "extractJsonArray (JStr quiz_wrong_answer) =
     JArr [JObj [(js ''question'', JStr (js ''Q'')),
                 (js ''options'', JArr [JStr (js ''a''), JStr (js ''b''), JStr (js ''c''), JStr (js ''d'')]),
                 (js ''correctAnswer'', JStr (js ''z'')),
                 (js ''explanation'', JStr (js ''E''))]]"
  by (simp add: quiz_wrong_answer_def lex_defs text_defs)

lemma quiz_wrong_not_invariant: "\<not> quiz_invariant (extractJsonArray (JStr quiz_wrong_answer))"
  by (simp add: quiz_wrong_parsed quiz_invariant_def quiz_answer_among_options_def
        obj_member_def js_def)

lemma re_step_example: "re_step (js ''List the steps'')"
  by (simp add: re_step_def to_lower_ascii_def js_def)

lemma mix_bake_replies:
  "reply_text (mix_bake (fetches world0)) = Inr (JStr (js ''Mix it''))"
  "reply_text (mix_bake (fetches world0 + 1)) = Inr (JStr (js ''Bake it''))"
  by (simp_all add: mix_bake_def replies_def world0_def)

lemma fetches_world0 [simp]: "fetches world0 = 0" "sleeps world0 = []"
  by (simp_all add: world0_def)


section \<open>The two tries of callGeminiWithRetry and the routes\<close>

lemma server_callGeminiAPI_eq:
  "server_callGeminiAPI fetch prompt w = (reply_text (fetch (fetches w)), called w [prompt])"
  by (simp add: server_callGeminiAPI_def reply_text_def called_def Let_def
           split: fetch_result.split option.split)

lemma called_called [simp]: "called (called w ps) qs = called w (ps @ qs)"
  by (simp add: called_def)

lemma fetches_called [simp]: "fetches (called w ps) = fetches w + length ps"
  by (simp add: called_def)

lemma fetches_logged [simp]: "fetches (logged w a b c) = fetches w"
  by (simp add: logged_def)

lemma called_logged: "called (logged w a b c) ps = logged (called w ps) a b c"
  by (simp add: logged_def called_def)

declare callGeminiWithRetry_loop.simps [simp del]

lemma loop_try3:
  "callGeminiWithRetry_loop fetch e (Suc (Suc (Suc 0))) prompt lastText w = (lastText, w)"
  by (subst callGeminiWithRetry_loop.simps) (simp add: maxTries_def)

lemma loop_try2:
  "callGeminiWithRetry_loop fetch e (Suc (Suc 0)) prompt lastText w =
     (case reply_text (fetch (fetches w)) of
        Inr t \<Rightarrow> (t, called w [prompt])
      | Inl err \<Rightarrow> (JNull, called w [prompt]))"
  by (subst callGeminiWithRetry_loop.simps)
     (simp add: maxTries_def server_callGeminiAPI_eq loop_try3 split: sum.split)

lemma callGeminiWithRetry_cases:
  "callGeminiWithRetry fetch prompt e w =
     (case reply_text (fetch (fetches w)) of
        Inr t1 \<Rightarrow>
          if accepts e t1 then (t1, called w [prompt])
          else (case reply_text (fetch (fetches w + 1)) of
                  Inr t2 \<Rightarrow> (t2, called w [prompt, prompt @ strengthen e])
                | Inl err \<Rightarrow> (JNull, called w [prompt, prompt @ strengthen e]))
      | Inl err \<Rightarrow>
          (case reply_text (fetch (fetches w + 1)) of
             Inr t2 \<Rightarrow> (t2, called w [prompt, prompt])
           | Inl err2 \<Rightarrow> (JNull, called w [prompt, prompt])))"
  unfolding callGeminiWithRetry_def
  by (subst callGeminiWithRetry_loop.simps, cases e)
     (simp_all add: maxTries_def server_callGeminiAPI_eq loop_try2 accepts_def split: sum.split)

lemma callGeminiWithRetry_fetches:
  "fetches (snd (callGeminiWithRetry fetch prompt e w)) \<le> fetches w + 2"
  by (simp add: callGeminiWithRetry_cases split: sum.split)

lemma callGeminiWithRetry_fetches_ge:
  "fetches w \<le> fetches (snd (callGeminiWithRetry fetch prompt e w))"
  by (simp add: callGeminiWithRetry_cases split: sum.split)

lemma logBadResponse_eq:
  "logBadResponse endpoint prompt response w =
     (case js_or response (JStr []) of
        JStr r \<Rightarrow> Inr (logged w endpoint prompt r)
      | _ \<Rightarrow> Inl TypeError)"
  by (simp add: logBadResponse_def logged_def split: jsval.split)

lemma json_route_fetches:
  "fetches (snd (json_route fetch endpoint validate prompt w)) \<le> fetches w + 4"
proof -
  obtain r1 w1 where r1: "callGeminiWithRetry fetch prompt ExpectJson w = (r1, w1)"
    by (cases "callGeminiWithRetry fetch prompt ExpectJson w")
  have f1: "fetches w1 \<le> fetches w + 2"
    using callGeminiWithRetry_fetches [of fetch prompt ExpectJson w] by (simp add: r1)
  show ?thesis
  proof (cases "passes validate r1")
    case True
    then show ?thesis using f1 by (simp add: json_route_def r1 passes_def Let_def)
  next
    case False
    show ?thesis
    proof (cases "logBadResponse endpoint prompt r1 w1")
      case (Inl err)
      then show ?thesis using False f1 by (simp add: json_route_def r1 passes_def Let_def)
    next
      case (Inr w2)
      then have f2: "fetches w2 = fetches w1"
        by (auto simp: logBadResponse_eq split: jsval.splits)
      obtain r2 w3 where r2:
        "callGeminiWithRetry fetch (prompt @ retry_instruction) ExpectJson w2 = (r2, w3)"
        by (cases "callGeminiWithRetry fetch (prompt @ retry_instruction) ExpectJson w2")
      have f3: "fetches w3 \<le> fetches w2 + 2"
        using callGeminiWithRetry_fetches [of fetch "prompt @ retry_instruction" ExpectJson w2]
        by (simp add: r2)
      show ?thesis using False Inr f1 f2 f3
        by (simp add: json_route_def r1 r2 passes_def Let_def)
    qed
  qed
qed

lemma json_route_unflagged:
  assumes "json_route fetch endpoint validate prompt w = (Ok200 response None, w')"
  shows "passes validate response"
proof -
  obtain r1 w1 where r1: "callGeminiWithRetry fetch prompt ExpectJson w = (r1, w1)"
    by (cases "callGeminiWithRetry fetch prompt ExpectJson w")
  show ?thesis
  proof (cases "passes validate r1")
    case True
    then show ?thesis using assms by (simp add: json_route_def r1 passes_def Let_def)
  next
    case False
    show ?thesis
    proof (cases "logBadResponse endpoint prompt r1 w1")
      case (Inl err)
      then show ?thesis using False assms by (simp add: json_route_def r1 passes_def Let_def)
    next
      case (Inr w2)
      obtain r2 w3 where r2:
        "callGeminiWithRetry fetch (prompt @ retry_instruction) ExpectJson w2 = (r2, w3)"
        by (cases "callGeminiWithRetry fetch (prompt @ retry_instruction) ExpectJson w2")
      show ?thesis using False Inr assms
        by (simp add: json_route_def r1 r2 passes_def Let_def split: if_splits)
    qed
  qed
qed

lemma not_accepts_not_passes:
  "\<not> accepts ExpectJson t \<Longrightarrow> \<not> passes validate t"
  by (cases "truthy t") (simp_all add: accepts_def passes_def js_or_def extractJsonArray_def)

lemma accepts_json_passes:
  "accepts ExpectJson (JStr s) \<Longrightarrow> validate (extractJsonArray (JStr s)) \<Longrightarrow> passes validate (JStr s)"
  by (cases "s = []") (simp_all add: accepts_def passes_def js_or_def extractJsonArray_def)

lemma json_route_first_reply:
  assumes "reply_text (fetch (fetches w)) = Inr (JStr s)" "accepts ExpectJson (JStr s)"
    and "validate (extractJsonArray (JStr s))"
  shows "json_route fetch endpoint validate prompt w = (Ok200 (JStr s) None, called w [prompt])"
proof -
  have "passes validate (JStr s)"
    using assms(2,3) by (rule accepts_json_passes)
  moreover have "callGeminiWithRetry fetch prompt ExpectJson w = (JStr s, called w [prompt])"
    using assms(1,2) by (simp add: callGeminiWithRetry_cases)
  ultimately show ?thesis
    by (simp add: json_route_def passes_def Let_def)
qed

lemma json_route_four_failures:
  assumes "reply_text (fetch (fetches w)) = Inr t1" "\<not> accepts ExpectJson t1"
    and "reply_text (fetch (fetches w + 1)) = Inr (JStr s2)" "\<not> accepts ExpectJson (JStr s2)"
    and "reply_text (fetch (fetches w + 2)) = Inr t3" "\<not> accepts ExpectJson t3"
    and "reply_text (fetch (fetches w + 3)) = Inr t4" "\<not> accepts ExpectJson t4"
  shows "json_route fetch endpoint validate prompt w =
    (Ok200 (JStr s2) (Some warning_text),
     logged (called w [prompt, prompt @ strengthen ExpectJson, prompt @ retry_instruction,
                       prompt @ retry_instruction @ strengthen ExpectJson])
       endpoint prompt s2)"
proof -
  have r1: "callGeminiWithRetry fetch prompt ExpectJson w =
              (JStr s2, called w [prompt, prompt @ strengthen ExpectJson])"
    using assms(1-3) by (simp add: callGeminiWithRetry_cases)
  have np: "\<not> passes validate (JStr s2)" "\<not> passes validate t4"
    using assms(4,8) by (simp_all add: not_accepts_not_passes)
  have lg: "logBadResponse endpoint prompt (JStr s2) w' = Inr (logged w' endpoint prompt s2)" for w'
    by (simp add: logBadResponse_eq js_or_def)
  have r2: "callGeminiWithRetry fetch (prompt @ retry_instruction) ExpectJson
              (logged (called w [prompt, prompt @ strengthen ExpectJson]) endpoint prompt s2) =
            (t4, called (logged (called w [prompt, prompt @ strengthen ExpectJson]) endpoint prompt s2)
                   [prompt @ retry_instruction, prompt @ retry_instruction @ strengthen ExpectJson])"
    using assms(5-7) by (simp add: callGeminiWithRetry_cases numeral_3_eq_3 numeral_2_eq_2)
  show ?thesis
    using np by (simp add: json_route_def r1 lg r2 Let_def passes_def called_logged)
qed

lemma server_ask_fetches: "fetches (snd (server_ask fetch prompt w)) \<le> fetches w + 2"
proof (cases "prompt = []")
  case True
  then show ?thesis by (simp add: server_ask_def)
next
  case False
  let ?e = "if re_step prompt then ExpectMarkdownList else ExpectAny"
  let ?p = "if re_step prompt then prompt @ ask_list_instruction else prompt"
  obtain r w1 where r: "callGeminiWithRetry fetch ?p ?e w = (r, w1)"
    by (cases "callGeminiWithRetry fetch ?p ?e w")
  have "fetches w1 \<le> fetches w + 2"
    using callGeminiWithRetry_fetches [of fetch ?p ?e w] by (simp add: r)
  then show ?thesis
    using False r by (simp add: server_ask_def Let_def)
qed

lemma server_flashcards_unflagged:
  "server_flashcards fetch topic w = (Ok200 response None, w') \<Longrightarrow>
   passes validateFlashcards response"
  by (cases "topic = []") (auto simp: server_flashcards_def dest: json_route_unflagged)

lemma server_quiz_unflagged:
  "server_quiz fetch topic w = (Ok200 response None, w') \<Longrightarrow> passes validateQuiz response"
  by (cases "topic = []") (auto simp: server_quiz_def dest: json_route_unflagged)

lemma callGeminiWithRetry_first_fails:
  "reply_text (fetch (fetches w)) = Inr t1 \<Longrightarrow> \<not> accepts e t1 \<Longrightarrow>
   callGeminiWithRetry fetch prompt e w =
     (last_try (reply_text (fetch (fetches w + 1))), called w [prompt, prompt @ strengthen e])"
  by (simp add: callGeminiWithRetry_cases last_try_def split: sum.split)

lemma callGeminiWithRetry_first_throws:
  "reply_text (fetch (fetches w)) = Inl err \<Longrightarrow>
   callGeminiWithRetry fetch prompt e w =
     (last_try (reply_text (fetch (fetches w + 1))), called w [prompt, prompt])"
  by (simp add: callGeminiWithRetry_cases last_try_def split: sum.split)

lemma callGeminiWithRetry_try_fails:
  assumes "try_fails e (reply_text (fetch (fetches w)))"
  shows "\<exists>p2. callGeminiWithRetry fetch prompt e w =
     (last_try (reply_text (fetch (fetches w + 1))), called w [prompt, p2])"
proof (cases "reply_text (fetch (fetches w))")
  case (Inl err)
  then show ?thesis using callGeminiWithRetry_first_throws by blast
next
  case (Inr t1)
  then have "\<not> accepts e t1" using assms by (simp add: try_fails_def)
  then show ?thesis using Inr callGeminiWithRetry_first_fails by blast
qed

lemma json_route_two_rounds:
  assumes "try_fails ExpectJson (reply_text (fetch (fetches w)))"
    and "last_try (reply_text (fetch (fetches w + 1))) = r1"
    and "r1 = JNull \<or> (\<exists>s. r1 = JStr s)"
    and "\<not> passes validate r1"
    and "try_fails ExpectJson (reply_text (fetch (fetches w + 2)))"
    and "\<not> passes validate (last_try (reply_text (fetch (fetches w + 3))))"
  shows "fst (json_route fetch endpoint validate prompt w) = Ok200 r1 (Some warning_text) \<and>
         fetches (snd (json_route fetch endpoint validate prompt w)) = fetches w + 4"
proof -
  obtain p2 where c1: "callGeminiWithRetry fetch prompt ExpectJson w = (r1, called w [prompt, p2])"
    using callGeminiWithRetry_try_fails [of ExpectJson fetch w prompt, OF assms(1)] assms(2)
    by auto
  let ?w1 = "called w [prompt, p2]"
  have "\<exists>s. js_or r1 (JStr []) = JStr s"
    using assms(3) by (auto simp: js_or_def)
  then obtain s where s: "js_or r1 (JStr []) = JStr s" by blast
  let ?w2 = "logged ?w1 endpoint prompt s"
  have lg: "logBadResponse endpoint prompt r1 ?w1 = Inr ?w2"
    by (simp add: logBadResponse_eq s)
  have f2: "fetches ?w2 = fetches w + 2" by simp
  have t3: "try_fails ExpectJson (reply_text (fetch (fetches ?w2)))"
    using assms(5) unfolding f2 .
  obtain p4 where c2: "callGeminiWithRetry fetch (prompt @ retry_instruction) ExpectJson ?w2 =
      (last_try (reply_text (fetch (fetches ?w2 + 1))), called ?w2 [prompt @ retry_instruction, p4])"
    using callGeminiWithRetry_try_fails [of ExpectJson fetch ?w2 "prompt @ retry_instruction", OF t3]
    by blast
  have i3: "fetches ?w2 + 1 = fetches w + 3" by simp
  have np2: "\<not> passes validate (last_try (reply_text (fetch (fetches ?w2 + 1))))"
    using assms(6) unfolding i3 .
  show ?thesis
    using assms(4) np2 by (simp add: json_route_def c1 lg c2 Let_def passes_def)
qed

lemma server_ask_first_fails:
  assumes "prompt \<noteq> []" "re_step prompt"
    and "reply_text (fetch (fetches w)) = Inr t1" "\<not> isNumberedMarkdownList t1"
  shows "server_ask fetch prompt w =
    (Ok200 (last_try (reply_text (fetch (fetches w + 1)))) None,
     called w [prompt @ ask_list_instruction,
               prompt @ ask_list_instruction @ strengthen ExpectMarkdownList])"
  using assms by (simp add: server_ask_def callGeminiWithRetry_first_fails accepts_def)

lemma server_ask_no_warning:
  "server_ask fetch prompt w = (Ok200 r warning, w') \<Longrightarrow> warning = None"
  by (cases "prompt = []") (auto simp: server_ask_def Let_def split: prod.splits)

lemma reply_text_Rejected: "reply_text (Rejected msg) = Inl (NetworkError msg)"
  by (simp add: reply_text_def)

lemma refused_replies:
  "reply_text (mix_then_refused (fetches world0)) = Inr (JStr (js ''Mix it''))"
  "reply_text (mix_then_refused (fetches world0 + 1)) = Inl (NetworkError (js ''ECONNRESET''))"
  "reply_text (mix_then_empty (fetches world0)) = Inr (JStr (js ''Mix it''))"
  "reply_text (mix_then_empty (fetches world0 + 1)) = Inr (JStr [])"
  "reply_text (no_list_then_refused (fetches world0)) = Inr (JStr (js ''no list''))"
  "reply_text (no_list_then_refused (fetches world0 + 1)) = Inl (NetworkError (js ''ECONNRESET''))"
  "reply_text (no_list_then_refused (fetches world0 + 2)) = Inl (NetworkError (js ''ECONNRESET''))"
  "reply_text (no_list_then_refused (fetches world0 + 3)) = Inl (NetworkError (js ''ECONNRESET''))"
  by (simp_all add: mix_then_refused_def mix_then_empty_def no_list_then_refused_def replies_def
        world0_def reply_text_Rejected)

lemma not_passes_null: "\<not> passes validate JNull"
  by (simp add: passes_def js_or_def extractJsonArray_def)

lemma no_list_fetches:
  "fetches (snd (server_flashcards (\<lambda>k. gemini_reply (JStr (js ''no list''))) (js ''cats'') world0)) = 4"
proof -
  have "json_route (\<lambda>k. gemini_reply (JStr (js ''no list''))) (js ''/api/flashcards'')
          validateFlashcards (flashcards_prompt (js ''cats'')) world0 =
        (Ok200 (JStr (js ''no list'')) (Some warning_text),
         logged (called world0 [flashcards_prompt (js ''cats''),
                   flashcards_prompt (js ''cats'') @ strengthen ExpectJson,
                   flashcards_prompt (js ''cats'') @ retry_instruction,
                   flashcards_prompt (js ''cats'') @ retry_instruction @ strengthen ExpectJson])
           (js ''/api/flashcards'') (flashcards_prompt (js ''cats'')) (js ''no list''))"
    by (rule json_route_four_failures [where ?t1.0 = "JStr (js ''no list'')"
          and ?t3.0 = "JStr (js ''no list'')" and ?t4.0 = "JStr (js ''no list'')"])
       (simp_all add: no_list)
  then show ?thesis
    by (simp add: server_flashcards_def js_def world0_def)
qed


section \<open>The numbered-list check\<close>

lemma takeWhile_digits_dot:
  "list_all is_digit ds \<Longrightarrow> takeWhile is_digit (ds @ 46 # r) = ds"
  by (induction ds) (simp_all add: is_digit_def)

lemma dropWhile_digits_dot:
  "list_all is_digit ds \<Longrightarrow> dropWhile is_digit (ds @ 46 # r) = 46 # r"
  by (induction ds) (simp_all add: is_digit_def)

lemma re_number_dot_spaces_implies:
  assumes "re_number_dot_spaces l"
  shows "re_number_dot_space_or_dash l"
proof -
  from assms obtain r where d: "dropWhile is_digit l = 46 # r" "takeWhile is_space r \<noteq> []"
    and t: "takeWhile is_digit l \<noteq> []"
    by (auto simp: re_number_dot_spaces_def split: list.splits)
  from d(2) obtain c r' where r: "r = c # r'" "is_space c"
    by (cases r) (auto split: if_splits)
  show ?thesis
    using t d(1) r by (simp add: re_number_dot_space_or_dash_def)
qed

lemma numbered_line_eq: "numbered_line l = re_number_dot_space_or_dash l"
proof
  assume "numbered_line l"
  then obtain ds c rest where l: "l = ds @ 46 # c # rest" "ds \<noteq> []" "list_all is_digit ds"
    "is_space c \<or> c = 45"
    by (auto simp: numbered_line_def)
  then show "re_number_dot_space_or_dash l"
    by (simp add: re_number_dot_space_or_dash_def takeWhile_digits_dot dropWhile_digits_dot)
next
  assume r: "re_number_dot_space_or_dash l"
  then obtain c rest where d: "dropWhile is_digit l = 46 # c # rest" "is_space c \<or> c = 45"
    by (auto simp: re_number_dot_space_or_dash_def split: list.splits)
  have "l = takeWhile is_digit l @ 46 # c # rest"
    using takeWhile_dropWhile_id [of is_digit l] d(1) by simp
  moreover have "takeWhile is_digit l \<noteq> []"
    using r by (simp add: re_number_dot_space_or_dash_def)
  moreover have "list_all is_digit (takeWhile is_digit l)"
    by (simp add: list_all_iff) (meson set_takeWhileD)
  ultimately show "numbered_line l"
    unfolding numbered_line_def using d(2) by blast
qed

lemma numbered_filter_eq:
  "filter (\<lambda>l. re_number_dot_space_or_dash l \<or> re_number_dot_spaces l) ls = filter numbered_line ls"
  by (rule filter_cong) (auto simp: numbered_line_eq dest: re_number_dot_spaces_implies)

text \<open>
  The lines of a text are determined by it; \<open>split\<close> yields them, less a carriage return
  before each line feed, which trimming would remove as well.
\<close>

lemma text_lines_Nil: "text_lines [] ls \<Longrightarrow> ls = [[]]"
proof -
  assume a: "text_lines [] ls"
  then obtain l r where ls: "ls = l # r" by (cases ls) (simp_all add: text_lines_def)
  show ?thesis
  proof (cases r)
    case Nil
    then show ?thesis using a ls by (simp add: text_lines_def)
  next
    case (Cons m r')
    then show ?thesis using a ls by (simp add: text_lines_def)
  qed
qed

lemma text_lines_lf:
  assumes "text_lines (10 # cs) ls"
  shows "\<exists>ls'. ls = [] # ls' \<and> text_lines cs ls'"
proof -
  from assms obtain l r where ls: "ls = l # r" by (cases ls) (simp_all add: text_lines_def)
  have no: "10 \<notin> set l" using assms ls by (simp add: text_lines_def)
  show ?thesis
  proof (cases r)
    case Nil
    then have "l = 10 # cs" using assms ls by (simp add: text_lines_def)
    then show ?thesis using no by simp
  next
    case (Cons m r')
    then have eq: "l @ 10 # join_lf (m # r') = 10 # cs" using assms ls by (simp add: text_lines_def)
    have "l = []" using eq no by (cases l) auto
    then show ?thesis using eq assms ls Cons by (simp add: text_lines_def)
  qed
qed

lemma text_lines_char:
  assumes "text_lines (c # cs) ls" "c \<noteq> 10"
  shows "\<exists>l ls'. ls = (c # l) # ls' \<and> text_lines cs (l # ls')"
proof -
  from assms obtain l r where ls: "ls = l # r" by (cases ls) (simp_all add: text_lines_def)
  show ?thesis
  proof (cases r)
    case Nil
    then show ?thesis using assms ls by (auto simp: text_lines_def)
  next
    case (Cons m r')
    then have eq: "l @ 10 # join_lf (m # r') = c # cs" using assms ls by (simp add: text_lines_def)
    then obtain l' where l: "l = c # l'" using assms(2) by (cases l) auto
    then show ?thesis using eq assms ls Cons by (simp add: text_lines_def)
  qed
qed

lemma text_lines_exist: "\<exists>ls. text_lines s ls"
proof (induction s)
  case Nil
  have "text_lines [] [[]]" by (simp add: text_lines_def)
  then show ?case by blast
next
  case (Cons c cs)
  then obtain ls where t: "text_lines cs ls" by blast
  then obtain l r where ls: "ls = l # r" by (cases ls) (simp_all add: text_lines_def)
  show ?case
  proof (cases "c = 10")
    case True
    have "text_lines (c # cs) ([] # ls)" using t ls True by (simp add: text_lines_def)
    then show ?thesis by blast
  next
    case False
    have "text_lines (c # cs) ((c # l) # r)"
      using t ls False by (cases r) (auto simp: text_lines_def)
    then show ?thesis by blast
  qed
qed

lemma split_lines_text_lines:
  "text_lines s ls \<Longrightarrow> list_all2 (\<lambda>x l. l = x \<or> l = x @ [13]) (split_lines s) ls"
proof (induction s arbitrary: ls rule: split_lines.induct)
  case 1
  then show ?case using text_lines_Nil [of ls] by simp
next
  case (2 c)
  show ?case
  proof (cases "c = 10")
    case True
    then obtain ls' where "ls = [] # ls'" "text_lines [] ls'" using 2 text_lines_lf by blast
    then show ?thesis using True text_lines_Nil by auto
  next
    case False
    then obtain l ls' where "ls = (c # l) # ls'" "text_lines [] (l # ls')"
      using 2 text_lines_char by blast
    then show ?thesis using False text_lines_Nil [of "l # ls'"] by auto
  qed
next
  case (3 c d cs)
  show ?case
  proof (cases "c = 10")
    case True
    then obtain ls' where l: "ls = [] # ls'" "text_lines (d # cs) ls'"
      using "3.prems" text_lines_lf by blast
    then show ?thesis using True "3.IH"(1) by simp
  next
    case c: False
    then obtain l ls' where l: "ls = (c # l) # ls'" "text_lines (d # cs) (l # ls')"
      using "3.prems" text_lines_char by blast
    show ?thesis
    proof (cases "c = 13 \<and> d = 10")
      case True
      then obtain ls'' where "l # ls' = [] # ls''" "text_lines cs ls''"
        using l(2) text_lines_lf by blast
      then show ?thesis using True c l(1) "3.IH"(2) by simp
    next
      case False
      from "3.IH"(3) [OF c False l(2)]
      obtain x xs where "split_lines (d # cs) = x # xs" "l = x \<or> l = x @ [13]"
        "list_all2 (\<lambda>x l. l = x \<or> l = x @ [13]) xs ls'"
        by (auto simp: list_all2_Cons2)
      then show ?thesis using False c l(1) by auto
    qed
  qed
qed

lemma trim_all_space:
  assumes "\<forall>c\<in>set l. is_space c"
  shows "trim l = []"
proof -
  have "dropWhile is_space l = []" using assms by (metis dropWhile_eq_Nil_conv)
  then have "trim l = rev (dropWhile is_space (rev []))"
    unfolding trim_def by (rule arg_cong [where f = "\<lambda>x. rev (dropWhile is_space (rev x))"])
  then show ?thesis by simp
qed

lemma trim_snoc_cr: "trim (x @ [13]) = trim x"
proof (cases "\<forall>c\<in>set x. is_space c")
  case True
  then have "\<forall>c\<in>set (x @ [13]). is_space c" by (simp add: is_space_def)
  then show ?thesis using True by (simp only: trim_all_space)
next
  case False
  then have "dropWhile is_space (x @ [13]) = dropWhile is_space x @ [13]"
    by (simp add: dropWhile_append)
  then show ?thesis by (simp add: trim_def is_space_def)
qed

lemma map_trim_eq:
  "list_all2 (\<lambda>x l. l = x \<or> l = x @ [13]) xs ls \<Longrightarrow> map trim xs = map trim ls"
  by (induction rule: list_all2_induct) (auto simp: trim_snoc_cr)

lemma trimmed_trim: "trimmed l (trim l)"
proof -
  let ?a = "takeWhile is_space l"
  let ?u = "dropWhile is_space l"
  let ?b = "rev (takeWhile is_space (rev ?u))"
  have "?u = rev (dropWhile is_space (rev ?u)) @ rev (takeWhile is_space (rev ?u))"
    by (metis rev_append rev_rev_ident takeWhile_dropWhile_id)
  then have u: "?u = trim l @ ?b" unfolding trim_def .
  have l: "l = ?a @ trim l @ ?b" using u takeWhile_dropWhile_id [of is_space l] by simp
  have sa: "list_all is_space ?a" by (simp add: list_all_iff) (meson set_takeWhileD)
  have sb: "list_all is_space ?b" by (simp add: list_all_iff) (meson set_takeWhileD)
  have ends: "\<not> is_space (hd (trim l)) \<and> \<not> is_space (last (trim l))" if ne: "trim l \<noteq> []"
  proof -
    have une: "?u \<noteq> []" using u ne by (metis append_is_Nil_conv)
    have "hd ?u = hd (trim l)" using u ne by (metis hd_append2)
    moreover have "\<not> is_space (hd ?u)" using une by (rule hd_dropWhile)
    moreover have "dropWhile is_space (rev ?u) \<noteq> []" using ne by (simp add: trim_def)
    then have "\<not> is_space (hd (dropWhile is_space (rev ?u)))" by (rule hd_dropWhile)
    moreover have "last (trim l) = hd (dropWhile is_space (rev ?u))"
      using ne by (simp add: trim_def last_rev)
    ultimately show ?thesis by simp
  qed
  show ?thesis unfolding trimmed_def using l sa sb ends by blast
qed

lemma trimmed_unique:
  assumes "trimmed l t"
  shows "t = trim l"
proof -
  from assms obtain a b where l: "l = a @ t @ b" and a: "list_all is_space a"
    and b: "list_all is_space b"
    and e: "t \<noteq> [] \<longrightarrow> \<not> is_space (hd t) \<and> \<not> is_space (last t)"
    by (auto simp: trimmed_def)
  show ?thesis
  proof (cases "t = []")
    case True
    then have "\<forall>x\<in>set l. is_space x" using l a b by (auto simp: list_all_iff)
    then show ?thesis using True by (simp only: trim_all_space)
  next
    case False
    then obtain h t' where t: "t = h # t'" by (cases t) simp_all
    have h: "\<not> is_space h" using e t by simp
    have d1: "dropWhile is_space l = t @ b"
      using a h by (simp add: l t dropWhile_append list_all_iff)
    have "rev t \<noteq> []" using False by simp
    then obtain g r where r: "rev t = g # r" by (cases "rev t") simp_all
    have "g = last t" using r False by (metis last_rev list.sel(1) rev_rev_ident hd_rev)
    then have g: "\<not> is_space g" using e False by simp
    have "dropWhile is_space (rev (t @ b)) = rev t"
      using b g by (simp add: r dropWhile_append list_all_iff)
    then show ?thesis by (simp add: trim_def d1)
  qed
qed

lemma list_all2_trimmed: "list_all2 trimmed ls ts = (ts = map trim ls)"
proof
  assume "list_all2 trimmed ls ts"
  then show "ts = map trim ls"
    by (induction rule: list_all2_induct) (simp_all add: trimmed_unique)
next
  assume "ts = map trim ls"
  then show "list_all2 trimmed ls ts"
    by (simp add: list_all2_conv_all_nth trimmed_trim)
qed

lemma numbered_list_rule_eq:
  "numbered_list_rule s =
     (let kept = filter (\<lambda>l. l \<noteq> []) (map trim (split_lines s))
      in max 1 (length kept div 2) \<le> length (filter numbered_line kept))"
proof -
  obtain ls0 where ls0: "text_lines s ls0" using text_lines_exist by blast
  have eq: "map trim ls = map trim (split_lines s)" if "text_lines s ls" for ls
    using split_lines_text_lines [OF that] by (rule map_trim_eq [symmetric])
  let ?enough = "\<lambda>ts. max 1 (length (filter (\<lambda>t. t \<noteq> []) ts) div 2)
      \<le> length (filter numbered_line (filter (\<lambda>t. t \<noteq> []) ts))"
  have "numbered_list_rule s = (\<exists>ls. text_lines s ls \<and> ?enough (map trim ls))"
    unfolding numbered_list_rule_def list_all2_trimmed Let_def by blast
  also have "\<dots> = ?enough (map trim (split_lines s))"
    using ls0 eq by metis
  finally show ?thesis unfolding Let_def .
qed

section \<open>The quiz schema\<close>

lemma ajv_string: "ajv_validate SString v \<Longrightarrow> \<exists>s. v = JStr s"
  by (cases v) simp_all

lemma ajv_four_strings:
  "ajv_validate (SArray SString (Some 4) (Some 4)) v \<Longrightarrow>
   \<exists>opts. v = JArr opts \<and> length opts = 4 \<and> list_all (\<lambda>x. \<exists>s. x = JStr s) opts"
proof (cases v)
  case (JArr xs)
  assume "ajv_validate (SArray SString (Some 4) (Some 4)) v"
  then have "length xs = 4" "list_all (ajv_validate SString) xs"
    using JArr by simp_all
  then have "list_all (\<lambda>x. \<exists>s. x = JStr s) xs"
    by (auto simp del: ajv_validate.simps simp: list_all_iff dest: ajv_string)
  then show ?thesis using JArr \<open>length xs = 4\<close> by simp
qed simp_all

lemma ajv_quiz_item:
  assumes "ajv_validate
     (SObject
        [(js ''question'', SString),
         (js ''options'', SArray SString (Some 4) (Some 4)),
         (js ''correctAnswer'', SString),
         (js ''explanation'', SString)]
        [js ''question'', js ''options'', js ''correctAnswer'', js ''explanation'']) item"
  shows "quiz_item_fields item"
proof (cases item)
  case (JObj ms)
  from assms JObj have
    q: "ajv_validate SString (obj_member ms (js ''question''))" and
    o: "ajv_validate (SArray SString (Some 4) (Some 4)) (obj_member ms (js ''options''))" and
    c: "ajv_validate SString (obj_member ms (js ''correctAnswer''))" and
    x: "ajv_validate SString (obj_member ms (js ''explanation''))"
    by auto
  show ?thesis
    unfolding quiz_item_fields_def
    using JObj ajv_string [OF q] ajv_four_strings [OF o] ajv_string [OF c] ajv_string [OF x]
    by auto
qed (use assms in simp_all)


section \<open>The retry loop of callGeminiAPI\<close>

declare callGeminiAPI_loop.simps [simp del]

lemma try_block_continue: "try_block r attempt = Continue429 wt \<Longrightarrow> attempt < maxRetries"
  by (auto simp: try_block_def split: fetch_result.splits if_splits option.splits sum.splits)

lemma loop_fetches_le:
  "fetches (snd (callGeminiAPI_loop fetch prompt attempt lastError w)) \<le>
     fetches w + (maxRetries + 1 - attempt)"
proof (induction fetch prompt attempt lastError w rule: callGeminiAPI_loop.induct)
  case (1 fetch prompt attempt lastError w)
  show ?case
  proof (cases "attempt \<le> maxRetries")
    case False
    then show ?thesis by (subst callGeminiAPI_loop.simps) simp
  next
    case True
    let ?w1 = "w\<lparr>fetches := fetches w + 1, sent := sent w @ [prompt]\<rparr>"
    show ?thesis
    proof (cases "try_block (fetch (fetches w)) attempt")
      case (Return v)
      then show ?thesis using True by (subst callGeminiAPI_loop.simps) simp
    next
      case (Continue429 wt)
      then show ?thesis
        using True "1.IH"(1) [OF True refl Continue429]
        by (subst callGeminiAPI_loop.simps) (simp add: Let_def)
    next
      case (Throw err)
      show ?thesis
      proof (cases "attempt < maxRetries")
        case lt: True
        then show ?thesis
          using True Throw "1.IH"(2) [OF True refl Throw lt]
          by (subst callGeminiAPI_loop.simps) (simp add: Let_def)
      next
        case False
        then show ?thesis
          using True Throw by (subst callGeminiAPI_loop.simps) (simp add: Let_def)
      qed
    qed
  qed
qed

lemma loop_unfold:
  "attempt \<le> maxRetries \<Longrightarrow>
   callGeminiAPI_loop fetch prompt attempt lastError w =
     (case try_block (fetch (fetches w)) attempt of
        Return v \<Rightarrow> (Inr v, called w [prompt])
      | Continue429 waitMs \<Rightarrow>
          callGeminiAPI_loop fetch prompt (attempt + 1) lastError
            ((called w [prompt])\<lparr>sleeps := sleeps w @ [waitMs]\<rparr>)
      | Throw err \<Rightarrow>
          if attempt < maxRetries then
            callGeminiAPI_loop fetch prompt (attempt + 1) (Some err)
              ((called w [prompt])\<lparr>sleeps := sleeps w @ [backoff attempt]\<rparr>)
          else (Inl err, called w [prompt]))"
  by (subst callGeminiAPI_loop.simps) (simp add: Let_def called_def split: outcome.split)

lemma loop_exhausted:
  "\<not> attempt \<le> maxRetries \<Longrightarrow>
   callGeminiAPI_loop fetch prompt attempt lastError w =
     (Inl (case lastError of None \<Rightarrow> UnknownError | Some e \<Rightarrow> e), w)"
  by (subst callGeminiAPI_loop.simps) simp

lemma fetches_sleeps_update [simp]: "fetches (w\<lparr>sleeps := x\<rparr>) = fetches w"
  by simp

lemma loop_error_is_last:
  "attempt + n = maxRetries \<Longrightarrow>
   fst (callGeminiAPI_loop fetch prompt attempt lastError w) = Inl e \<Longrightarrow>
   fetches (snd (callGeminiAPI_loop fetch prompt attempt lastError w)) = fetches w + n + 1 \<and>
   try_block (fetch (fetches w + n)) maxRetries = Throw e"
proof (induction fetch prompt attempt lastError w arbitrary: n rule: callGeminiAPI_loop.induct)
  case (1 fetch prompt attempt lastError w)
  have le: "attempt \<le> maxRetries" using "1.prems"(1) by simp
  let ?w1 = "w\<lparr>fetches := fetches w + 1, sent := sent w @ [prompt]\<rparr>"
  have w1: "called w [prompt] = ?w1" by (simp add: called_def)
  show ?case
  proof (cases "try_block (fetch (fetches w)) attempt")
    case (Return v)
    then show ?thesis using le "1.prems"(2) by (simp add: loop_unfold)
  next
    case (Continue429 wt)
    then have lt: "attempt < maxRetries" by (rule try_block_continue)
    then obtain m where n: "n = Suc m" using "1.prems"(1) by (cases n) simp_all
    have eq: "callGeminiAPI_loop fetch prompt attempt lastError w =
        callGeminiAPI_loop fetch prompt (attempt + 1) lastError (?w1\<lparr>sleeps := sleeps ?w1 @ [wt]\<rparr>)"
      using le Continue429 by (simp add: loop_unfold w1)
    have "attempt + 1 + m = maxRetries" using "1.prems"(1) n by simp
    from "1.IH"(1) [OF le refl Continue429 this] "1.prems"(2) eq
    show ?thesis by (simp add: n)
  next
    case (Throw err)
    show ?thesis
    proof (cases "attempt < maxRetries")
      case lt: True
      then obtain m where n: "n = Suc m" using "1.prems"(1) by (cases n) simp_all
      let ?w2 = "?w1\<lparr>sleeps := sleeps ?w1 @ [backoff attempt]\<rparr>"
      have eq: "callGeminiAPI_loop fetch prompt attempt lastError w =
          callGeminiAPI_loop fetch prompt (attempt + 1) (Some err) ?w2"
        using le lt Throw by (simp add: loop_unfold w1)
      have "attempt + 1 + m = maxRetries" using "1.prems"(1) n by simp
      from "1.IH"(2) [OF le refl Throw lt this] "1.prems"(2) eq
      show ?thesis by (simp add: n)
    next
      case False
      then have "attempt = maxRetries" "n = 0" using "1.prems"(1) by simp_all
      then show ?thesis using le Throw "1.prems"(2) by (simp add: loop_unfold)
    qed
  qed
qed

lemma loop_all_fail:
  "attempt + n = maxRetries \<Longrightarrow>
   (\<forall>j\<le>n. \<forall>v. try_block (fetch (fetches w + j)) (attempt + j) \<noteq> Return v) \<Longrightarrow>
   \<exists>e. fst (callGeminiAPI_loop fetch prompt attempt lastError w) = Inl e"
proof (induction fetch prompt attempt lastError w arbitrary: n rule: callGeminiAPI_loop.induct)
  case (1 fetch prompt attempt lastError w)
  have le: "attempt \<le> maxRetries" using "1.prems"(1) by simp
  let ?w1 = "w\<lparr>fetches := fetches w + 1, sent := sent w @ [prompt]\<rparr>"
  have w1: "called w [prompt] = ?w1" by (simp add: called_def)
  have shift: "\<forall>j\<le>m. \<forall>v. try_block (fetch (fetches w + 1 + j)) (attempt + 1 + j) \<noteq> Return v"
    if "n = Suc m" for m
  proof (intro allI impI)
    fix j v assume "j \<le> m"
    then have "Suc j \<le> n" using that by simp
    then show "try_block (fetch (fetches w + 1 + j)) (attempt + 1 + j) \<noteq> Return v"
      using "1.prems"(2) [rule_format, of "Suc j" v] by simp
  qed
  show ?case
  proof (cases "try_block (fetch (fetches w)) attempt")
    case (Return v)
    then show ?thesis using "1.prems"(2) [rule_format, of 0 v] by simp
  next
    case (Continue429 wt)
    then have lt: "attempt < maxRetries" by (rule try_block_continue)
    then obtain m where n: "n = Suc m" using "1.prems"(1) by (cases n) simp_all
    have eq: "callGeminiAPI_loop fetch prompt attempt lastError w =
        callGeminiAPI_loop fetch prompt (attempt + 1) lastError (?w1\<lparr>sleeps := sleeps ?w1 @ [wt]\<rparr>)"
      using le Continue429 by (simp add: loop_unfold w1)
    have "attempt + 1 + m = maxRetries" using "1.prems"(1) n by simp
    from "1.IH"(1) [OF le refl Continue429 this] shift [OF n] eq
    show ?thesis by simp
  next
    case (Throw err)
    show ?thesis
    proof (cases "attempt < maxRetries")
      case lt: True
      then obtain m where n: "n = Suc m" using "1.prems"(1) by (cases n) simp_all
      let ?w2 = "?w1\<lparr>sleeps := sleeps ?w1 @ [backoff attempt]\<rparr>"
      have eq: "callGeminiAPI_loop fetch prompt attempt lastError w =
          callGeminiAPI_loop fetch prompt (attempt + 1) (Some err) ?w2"
        using le lt Throw by (simp add: loop_unfold w1)
      have "attempt + 1 + m = maxRetries" using "1.prems"(1) n by simp
      from "1.IH"(2) [OF le refl Throw lt this] shift [OF n] eq
      show ?thesis by simp
    next
      case False
      then show ?thesis using le Throw by (simp add: loop_unfold)
    qed
  qed
qed

lemma loop_value_is_a_reply:
  "attempt + n = maxRetries \<Longrightarrow>
   fst (callGeminiAPI_loop fetch prompt attempt lastError w) = Inr v \<Longrightarrow>
   \<exists>j\<le>n. try_block (fetch (fetches w + j)) (attempt + j) = Return v"
proof (induction fetch prompt attempt lastError w arbitrary: n rule: callGeminiAPI_loop.induct)
  case (1 fetch prompt attempt lastError w)
  have le: "attempt \<le> maxRetries" using "1.prems"(1) by simp
  let ?w1 = "w\<lparr>fetches := fetches w + 1, sent := sent w @ [prompt]\<rparr>"
  have w1: "called w [prompt] = ?w1" by (simp add: called_def)
  have unshift: "\<exists>j\<le>n. try_block (fetch (fetches w + j)) (attempt + j) = Return v"
    if "n = Suc m" "\<exists>j\<le>m. try_block (fetch (fetches w + 1 + j)) (attempt + 1 + j) = Return v" for m
  proof -
    from that(2) obtain j where "j \<le> m"
      "try_block (fetch (fetches w + 1 + j)) (attempt + 1 + j) = Return v" by blast
    then have "Suc j \<le> n \<and> try_block (fetch (fetches w + Suc j)) (attempt + Suc j) = Return v"
      using that(1) by simp
    then show ?thesis by blast
  qed
  show ?case
  proof (cases "try_block (fetch (fetches w)) attempt")
    case (Return v')
    then have "v' = v" using le "1.prems"(2) by (simp add: loop_unfold)
    then have "try_block (fetch (fetches w + 0)) (attempt + 0) = Return v" using Return by simp
    then show ?thesis by blast
  next
    case (Continue429 wt)
    then have lt: "attempt < maxRetries" by (rule try_block_continue)
    then obtain m where n: "n = Suc m" using "1.prems"(1) by (cases n) simp_all
    have eq: "callGeminiAPI_loop fetch prompt attempt lastError w =
        callGeminiAPI_loop fetch prompt (attempt + 1) lastError (?w1\<lparr>sleeps := sleeps ?w1 @ [wt]\<rparr>)"
      using le Continue429 by (simp add: loop_unfold w1)
    have "attempt + 1 + m = maxRetries" using "1.prems"(1) n by simp
    from "1.IH"(1) [OF le refl Continue429 this] "1.prems"(2) eq
    have "\<exists>j\<le>m. try_block (fetch (fetches w + 1 + j)) (attempt + 1 + j) = Return v" by simp
    then show ?thesis by (rule unshift [OF n])
  next
    case (Throw err)
    show ?thesis
    proof (cases "attempt < maxRetries")
      case lt: True
      then obtain m where n: "n = Suc m" using "1.prems"(1) by (cases n) simp_all
      let ?w2 = "?w1\<lparr>sleeps := sleeps ?w1 @ [backoff attempt]\<rparr>"
      have eq: "callGeminiAPI_loop fetch prompt attempt lastError w =
          callGeminiAPI_loop fetch prompt (attempt + 1) (Some err) ?w2"
        using le lt Throw by (simp add: loop_unfold w1)
      have "attempt + 1 + m = maxRetries" using "1.prems"(1) n by simp
      from "1.IH"(2) [OF le refl Throw lt this] "1.prems"(2) eq
      have "\<exists>j\<le>m. try_block (fetch (fetches w + 1 + j)) (attempt + 1 + j) = Return v" by simp
      then show ?thesis by (rule unshift [OF n])
    next
      case False
      then show ?thesis using le Throw "1.prems"(2) by (simp add: loop_unfold)
    qed
  qed
qed

lemma loop_fetches_mono:
  "fetches w \<le> fetches (snd (callGeminiAPI_loop fetch prompt attempt lastError w))"
proof (induction fetch prompt attempt lastError w rule: callGeminiAPI_loop.induct)
  case (1 fetch prompt attempt lastError w)
  show ?case
  proof (cases "attempt \<le> maxRetries")
    case False
    then show ?thesis by (simp add: loop_exhausted)
  next
    case le: True
    let ?w1 = "w\<lparr>fetches := fetches w + 1, sent := sent w @ [prompt]\<rparr>"
    have w1: "called w [prompt] = ?w1" by (simp add: called_def)
    show ?thesis
    proof (cases "try_block (fetch (fetches w)) attempt")
      case (Return v)
      then show ?thesis using le by (simp add: loop_unfold)
    next
      case (Continue429 wt)
      from "1.IH"(1) [OF le refl Continue429] le Continue429
      show ?thesis by (simp add: loop_unfold w1)
    next
      case (Throw err)
      show ?thesis
      proof (cases "attempt < maxRetries")
        case lt: True
        from "1.IH"(2) [OF le refl Throw lt] le lt Throw
        show ?thesis by (simp add: loop_unfold w1)
      next
        case False
        then show ?thesis using le Throw by (simp add: loop_unfold)
      qed
    qed
  qed
qed

lemma loop_sleeps_prefix:
  "\<exists>ys. sleeps (snd (callGeminiAPI_loop fetch prompt attempt lastError w)) = sleeps w @ ys"
proof (induction fetch prompt attempt lastError w rule: callGeminiAPI_loop.induct)
  case (1 fetch prompt attempt lastError w)
  show ?case
  proof (cases "attempt \<le> maxRetries")
    case False
    then show ?thesis by (simp add: loop_exhausted)
  next
    case le: True
    let ?w1 = "w\<lparr>fetches := fetches w + 1, sent := sent w @ [prompt]\<rparr>"
    have w1: "called w [prompt] = ?w1" by (simp add: called_def)
    show ?thesis
    proof (cases "try_block (fetch (fetches w)) attempt")
      case (Return v)
      then show ?thesis using le by (simp add: loop_unfold called_def)
    next
      case (Continue429 wt)
      let ?w2 = "?w1\<lparr>sleeps := sleeps ?w1 @ [wt]\<rparr>"
      have eq: "callGeminiAPI_loop fetch prompt attempt lastError w =
          callGeminiAPI_loop fetch prompt (attempt + 1) lastError ?w2"
        using le Continue429 by (simp add: loop_unfold w1)
      from "1.IH"(1) [OF le refl Continue429] obtain ys where
        "sleeps (snd (callGeminiAPI_loop fetch prompt (attempt + 1) lastError ?w2)) =
           sleeps ?w2 @ ys" by blast
      then have "sleeps (snd (callGeminiAPI_loop fetch prompt attempt lastError w)) =
           sleeps w @ (wt # ys)" using eq by simp
      then show ?thesis by blast
    next
      case (Throw err)
      show ?thesis
      proof (cases "attempt < maxRetries")
        case lt: True
        let ?w2 = "?w1\<lparr>sleeps := sleeps ?w1 @ [backoff attempt]\<rparr>"
        have eq: "callGeminiAPI_loop fetch prompt attempt lastError w =
            callGeminiAPI_loop fetch prompt (attempt + 1) (Some err) ?w2"
          using le lt Throw by (simp add: loop_unfold w1)
        from "1.IH"(2) [OF le refl Throw lt] obtain ys where
          "sleeps (snd (callGeminiAPI_loop fetch prompt (attempt + 1) (Some err) ?w2)) =
             sleeps ?w2 @ ys" by blast
        then have "sleeps (snd (callGeminiAPI_loop fetch prompt attempt lastError w)) =
             sleeps w @ (backoff attempt # ys)" using eq by simp
        then show ?thesis by blast
      next
        case False
        then show ?thesis using le Throw by (simp add: loop_unfold called_def)
      qed
    qed
  qed
qed

lemma loop_fetches_ge:
  assumes "attempt \<le> maxRetries"
  shows "fetches w + 1 \<le> fetches (snd (callGeminiAPI_loop fetch prompt attempt lastError w))"
proof -
  note unfold = loop_unfold [OF assms, of fetch prompt lastError w]
  show ?thesis
  proof (cases "try_block (fetch (fetches w)) attempt")
    case (Return v)
    then show ?thesis using unfold by simp
  next
    case (Continue429 wt)
    then show ?thesis
      using unfold loop_fetches_mono [of "(called w [prompt])\<lparr>sleeps := sleeps w @ [wt]\<rparr>"
          fetch prompt "attempt + 1" lastError]
      by simp
  next
    case (Throw err)
    then show ?thesis
      using unfold loop_fetches_mono
          [of "(called w [prompt])\<lparr>sleeps := sleeps w @ [backoff attempt]\<rparr>"
           fetch prompt "attempt + 1" "Some err"]
      by (cases "attempt < maxRetries") simp_all
  qed
qed

lemma loop_wait_after_429:
  "attempt + n = k \<Longrightarrow> k < maxRetries \<Longrightarrow> length (sleeps w) = attempt \<Longrightarrow>
   (\<forall>j<n. \<forall>v. try_block (fetch (fetches w + j)) (attempt + j) \<noteq> Return v) \<Longrightarrow>
   try_block (fetch (fetches w + n)) k = Continue429 wt \<Longrightarrow>
   fetches w + n + 2 \<le> fetches (snd (callGeminiAPI_loop fetch prompt attempt lastError w)) \<and>
   sleeps (snd (callGeminiAPI_loop fetch prompt attempt lastError w)) ! k = wt"
proof (induction fetch prompt attempt lastError w arbitrary: n rule: callGeminiAPI_loop.induct)
  case (1 fetch prompt attempt lastError w)
  have le: "attempt \<le> maxRetries" and lt: "attempt < maxRetries"
    using "1.prems"(1,2) by simp_all
  let ?w1 = "w\<lparr>fetches := fetches w + 1, sent := sent w @ [prompt]\<rparr>"
  have w1: "called w [prompt] = ?w1" by (simp add: called_def)
  show ?case
  proof (cases n)
    case 0
    then have k: "attempt = k" using "1.prems"(1) by simp
    let ?w2 = "?w1\<lparr>sleeps := sleeps ?w1 @ [wt]\<rparr>"
    have c: "try_block (fetch (fetches w)) attempt = Continue429 wt"
      using "1.prems"(5) 0 k by simp
    have eq: "callGeminiAPI_loop fetch prompt attempt lastError w =
        callGeminiAPI_loop fetch prompt (attempt + 1) lastError ?w2"
      using le c by (simp add: loop_unfold w1)
    obtain ys where ys: "sleeps (snd (callGeminiAPI_loop fetch prompt (attempt + 1) lastError ?w2)) =
        sleeps ?w2 @ ys"
      using loop_sleeps_prefix by blast
    have "attempt + 1 \<le> maxRetries" using lt by simp
    then have "fetches ?w2 + 1 \<le>
        fetches (snd (callGeminiAPI_loop fetch prompt (attempt + 1) lastError ?w2))"
      by (rule loop_fetches_ge)
    then show ?thesis
      using eq ys 0 k "1.prems"(3) by (simp add: nth_append)
  next
    case (Suc m)
    have nr: "\<forall>v. try_block (fetch (fetches w)) attempt \<noteq> Return v"
      using "1.prems"(4) [rule_format, of 0] Suc by simp
    have shift: "\<forall>j<m. \<forall>v. try_block (fetch (fetches w + 1 + j)) (attempt + 1 + j) \<noteq> Return v"
    proof (intro allI impI)
      fix j v assume "j < m"
      then have "Suc j < n" using Suc by simp
      then show "try_block (fetch (fetches w + 1 + j)) (attempt + 1 + j) \<noteq> Return v"
        using "1.prems"(4) [rule_format, of "Suc j" v] by simp
    qed
    have k: "attempt + 1 + m = k" using "1.prems"(1) Suc by simp
    have last: "try_block (fetch (fetches w + 1 + m)) k = Continue429 wt"
      using "1.prems"(5) Suc by simp
    show ?thesis
    proof (cases "try_block (fetch (fetches w)) attempt")
      case (Return v)
      then show ?thesis using nr by simp
    next
      case (Continue429 wt')
      let ?w2 = "?w1\<lparr>sleeps := sleeps ?w1 @ [wt']\<rparr>"
      have eq: "callGeminiAPI_loop fetch prompt attempt lastError w =
          callGeminiAPI_loop fetch prompt (attempt + 1) lastError ?w2"
        using le Continue429 by (simp add: loop_unfold w1)
      have len: "length (sleeps ?w2) = attempt + 1" using "1.prems"(3) by simp
      from "1.IH"(1) [OF le refl Continue429 k "1.prems"(2) len] shift last eq
      show ?thesis by (simp add: Suc)
    next
      case (Throw err)
      let ?w2 = "?w1\<lparr>sleeps := sleeps ?w1 @ [backoff attempt]\<rparr>"
      have eq: "callGeminiAPI_loop fetch prompt attempt lastError w =
          callGeminiAPI_loop fetch prompt (attempt + 1) (Some err) ?w2"
        using le lt Throw by (simp add: loop_unfold w1)
      have len: "length (sleeps ?w2) = attempt + 1" using "1.prems"(3) by simp
      from "1.IH"(2) [OF le refl Throw lt k "1.prems"(2) len] shift last eq
      show ?thesis by (simp add: Suc)
    qed
  qed
qed

lemma digit_not_space: "is_digit c \<Longrightarrow> \<not> is_space c"
  by (simp add: is_digit_def is_space_def)

lemma backoff_eq: "k < maxRetries \<Longrightarrow> backoff k = Num (2 ^ k * 1000)"
proof -
  assume "k < maxRetries"
  then have "k = 0 \<or> k = 1 \<or> k = 2" by (auto simp: maxRetries_def)
  then show ?thesis by (auto simp: backoff_def times_def safe_def)
qed

lemma parseInt10_digits:
  assumes "ds \<noteq> []" "list_all is_digit ds" "decimal_value ds \<le> 2 ^ 53 - 1"
  shows "parseInt10 ds = Num (int (decimal_value ds))"
proof -
  have "int (decimal_value ds) \<le> int (2 ^ 53 - 1)" using assms(3) by (rule iffD2 [OF of_nat_le_iff])
  then have le: "int (decimal_value ds) \<le> 2 ^ 53 - 1" by simp
  obtain c r where ds: "ds = c # r" using assms(1) by (cases ds) simp_all
  have c: "is_digit c" using assms(2) ds by simp
  then have "c \<noteq> 45" "c \<noteq> 43" "\<not> is_space c"
    by (simp_all add: is_digit_def is_space_def)
  moreover have "takeWhile is_digit (c # r) = c # r"
    using assms(2) ds by (simp add: list_all_iff takeWhile_eq_all_conv [THEN iffD2])
  ultimately show ?thesis
    using le by (simp add: parseInt10_def ds Let_def safe_def)
qed

lemma rate_limit_wait_cases:
  "rate_limit_wait None k = backoff k"
  "rate_limit_wait (Some []) k = backoff k"
  "ds \<noteq> [] \<Longrightarrow> list_all is_digit ds \<Longrightarrow> decimal_value ds * 1000 \<le> 2 ^ 53 - 1 \<Longrightarrow>
   rate_limit_wait (Some ds) k = Num (int (decimal_value ds) * 1000)"
proof -
  show "rate_limit_wait None k = backoff k" "rate_limit_wait (Some []) k = backoff k"
    by (simp_all add: rate_limit_wait_def)
  assume ds: "ds \<noteq> []" "list_all is_digit ds" and le: "decimal_value ds * 1000 \<le> 2 ^ 53 - 1"
  have le1: "decimal_value ds \<le> 2 ^ 53 - 1" using le by linarith
  have "int (decimal_value ds * 1000) \<le> int (2 ^ 53 - 1)" using le by (rule iffD2 [OF of_nat_le_iff])
  then have le2: "int (decimal_value ds) * 1000 \<le> 2 ^ 53 - 1" by simp
  show "rate_limit_wait (Some ds) k = Num (int (decimal_value ds) * 1000)"
    using ds le2 by (simp add: rate_limit_wait_def parseInt10_digits [OF ds le1] times_def safe_def)
qed

lemma try_block_429:
  "k < maxRetries \<Longrightarrow> status resp = 429 \<Longrightarrow>
   try_block (Response resp) k = Continue429 (rate_limit_wait (retry_after resp) k)"
  by (simp add: try_block_def ok_def)

lemma try_block_503: "try_block (status_reply 503 None) k = Throw (HttpError 503 [])"
  by (simp add: try_block_def status_reply_def ok_def)

lemma malformed_reply_is_thrown:
  "ok resp \<Longrightarrow> body_json resp = Some data \<Longrightarrow> candidate_text data = Inl e \<Longrightarrow>
   try_block (Response resp) k = Throw e"
  by (simp add: try_block_def)

lemma ask_handler_error:
  "prompt \<noteq> [] \<Longrightarrow> fst (callGeminiAPI fetch prompt) = Inl e \<Longrightarrow>
   fst (ask_handler fetch prompt) = ServerError e"
  by (cases "callGeminiAPI fetch prompt") (simp add: ask_handler_def)

lemma limited_twice_replies:
  "limited_twice 0 = Response \<lparr>status = 429, retry_after = Some (js ''5''), body_text = [], body_json = None\<rparr>"
  "limited_twice (Suc 0) = Response \<lparr>status = 429, retry_after = None, body_text = [], body_json = None\<rparr>"
  by (simp_all add: limited_twice_def replies_def status_reply_def)

lemma five: "js ''5'' \<noteq> []" "list_all is_digit (js ''5'')" "decimal_value (js ''5'') = 5"
  by (simp_all add: js_def is_digit_def decimal_value_def)

lemma parseInt10_examples:
  "parseInt10 http_date = NaN"
  "parseInt10 (js ''5.5'') = Num 5"
  "parseInt10 (js ''9007199254740993'') = Unsafe"
  by (simp_all add: parseInt10_def http_date_def js_def is_space_def is_digit_def decimal_value_def
        safe_def)

lemma limited_once_result:
  assumes "s \<noteq> []"
  shows "callGeminiAPI (replies [status_reply 429 (Some s), gemini_reply (JStr (js ''ok''))]) prompt =
    (Inr (JStr (js ''ok'')),
     (called world0 [prompt, prompt])\<lparr>sleeps := [times (parseInt10 s) 1000]\<rparr>)"
proof -
  let ?fetch = "replies [status_reply 429 (Some s), gemini_reply (JStr (js ''ok''))]"
  have t0: "try_block (?fetch 0) 0 = Continue429 (times (parseInt10 s) 1000)"
    using assms
    by (simp add: replies_def status_reply_def try_block_def ok_def maxRetries_def
          rate_limit_wait_def)
  have t1: "try_block (?fetch (Suc 0)) (Suc 0) = Return (JStr (js ''ok''))"
    using reply_text_gemini_reply [of "JStr (js ''ok'')"]
    by (simp add: replies_def try_block_def reply_text_def gemini_reply_def
          split: if_splits option.splits)
  show ?thesis
    by (simp add: callGeminiAPI_def loop_unfold maxRetries_def t0 t1 called_def world0_def)
qed


lemma limited_twice_result:
  "fst (callGeminiAPI limited_twice (js ''hi'')) = Inr (JStr (js ''ok'')) \<and>
   try_block (limited_twice 2) 2 = Return (JStr (js ''ok''))"
proof -
  have t0: "try_block (limited_twice 0) 0 = Continue429 (Num 5000)"
    by (simp add: limited_twice_replies try_block_429 rate_limit_wait_cases five maxRetries_def)
  have t1: "try_block (limited_twice (Suc 0)) (Suc 0) = Continue429 (Num 2000)"
    by (simp add: limited_twice_replies try_block_429 rate_limit_wait_cases backoff_eq
          maxRetries_def)
  have t2: "try_block (limited_twice 2) 2 = Return (JStr (js ''ok''))"
    using reply_text_gemini_reply [of "JStr (js ''ok'')"]
    by (simp add: limited_twice_def replies_def try_block_def reply_text_def gemini_reply_def
          split: if_splits option.splits)
  have t2': "try_block (limited_twice (Suc (Suc 0))) (Suc (Suc 0)) = Return (JStr (js ''ok''))"
    using t2 by (simp add: numeral_2_eq_2)
  show ?thesis
    using t2 by (simp add: callGeminiAPI_def loop_unfold maxRetries_def t0 t1 t2')
qed

section \<open>The claims\<close>



text \<open>
  C2, as stated, fails in two ways. \<open>/api/ask\<close> never attaches a warning: for a
  numberedList expectation, when neither reply is a numbered list, it answers with the
  second reply's text after 2 model calls and no warning. And the first try's text is not
  kept: when the first reply is no numbered list and the repair call throws, \<open>/api/ask\<close>
  answers with \<open>null\<close>, and when the repair call returns the empty text it answers with
  the empty text, in both cases without a warning; on the flashcards route, when the
  first reply holds no JSON array and every later call throws, the answer carries the
  warning and \<open>null\<close>, not the first reply's text.
\<close>

theorem warning_and_first_text_counterexample:
  "re_step (js ''List the steps'') \<and>
   reply_text (mix_bake (fetches world0)) = Inr (JStr (js ''Mix it'')) \<and>
   \<not> isNumberedMarkdownList (JStr (js ''Mix it'')) \<and>
   reply_text (mix_bake (fetches world0 + 1)) = Inr (JStr (js ''Bake it'')) \<and>
   \<not> isNumberedMarkdownList (JStr (js ''Bake it'')) \<and>
   server_ask mix_bake (js ''List the steps'') world0 =
     (Ok200 (JStr (js ''Bake it'')) None,
      called world0 [js ''List the steps'' @ ask_list_instruction,
        js ''List the steps'' @ ask_list_instruction @ strengthen ExpectMarkdownList]) \<and>
   reply_text (mix_then_refused (fetches world0)) = Inr (JStr (js ''Mix it'')) \<and>
   reply_text (mix_then_refused (fetches world0 + 1)) = Inl (NetworkError (js ''ECONNRESET'')) \<and>
   server_ask mix_then_refused (js ''List the steps'') world0 =
     (Ok200 JNull None,
      called world0 [js ''List the steps'' @ ask_list_instruction,
        js ''List the steps'' @ ask_list_instruction @ strengthen ExpectMarkdownList]) \<and>
   reply_text (mix_then_empty (fetches world0)) = Inr (JStr (js ''Mix it'')) \<and>
   reply_text (mix_then_empty (fetches world0 + 1)) = Inr (JStr []) \<and>
   server_ask mix_then_empty (js ''List the steps'') world0 =
     (Ok200 (JStr []) None,
      called world0 [js ''List the steps'' @ ask_list_instruction,
        js ''List the steps'' @ ask_list_instruction @ strengthen ExpectMarkdownList]) \<and>
   reply_text (no_list_then_refused (fetches world0)) = Inr (JStr (js ''no list'')) \<and>
   fst (server_flashcards no_list_then_refused (js ''cats'') world0) =
     Ok200 JNull (Some warning_text)"
proof -
  have ne: "js ''List the steps'' \<noteq> []" "js ''cats'' \<noteq> []" by (simp_all add: js_def)
  have a: "server_ask mix_bake (js ''List the steps'') world0 =
     (Ok200 (JStr (js ''Bake it'')) None,
      called world0 [js ''List the steps'' @ ask_list_instruction,
        js ''List the steps'' @ ask_list_instruction @ strengthen ExpectMarkdownList])"
    using server_ask_first_fails [where fetch = mix_bake and w = world0,
        OF ne(1) re_step_example mix_bake_replies(1) not_numbered_examples(1)]
    by (simp only: mix_bake_replies(2) last_try_def sum.case)
  have b: "server_ask mix_then_refused (js ''List the steps'') world0 =
     (Ok200 JNull None,
      called world0 [js ''List the steps'' @ ask_list_instruction,
        js ''List the steps'' @ ask_list_instruction @ strengthen ExpectMarkdownList])"
    using server_ask_first_fails [where fetch = mix_then_refused and w = world0,
        OF ne(1) re_step_example refused_replies(1) not_numbered_examples(1)]
    by (simp only: refused_replies(2) last_try_def sum.case)
  have c: "server_ask mix_then_empty (js ''List the steps'') world0 =
     (Ok200 (JStr []) None,
      called world0 [js ''List the steps'' @ ask_list_instruction,
        js ''List the steps'' @ ask_list_instruction @ strengthen ExpectMarkdownList])"
    using server_ask_first_fails [where fetch = mix_then_empty and w = world0,
        OF ne(1) re_step_example refused_replies(3) not_numbered_examples(1)]
    by (simp only: refused_replies(4) last_try_def sum.case)
  have d: "fst (json_route no_list_then_refused (js ''/api/flashcards'') validateFlashcards
        (flashcards_prompt (js ''cats'')) world0) = Ok200 JNull (Some warning_text)"
    using json_route_two_rounds [where fetch = no_list_then_refused and w = world0
        and ?r1.0 = JNull and validate = validateFlashcards and endpoint = "js ''/api/flashcards''"
        and prompt = "flashcards_prompt (js ''cats'')"]
    by (simp add: refused_replies [simplified] try_fails_def last_try_def no_list not_passes_null)
  have d': "fst (server_flashcards no_list_then_refused (js ''cats'') world0) =
     Ok200 JNull (Some warning_text)"
    using d ne(2) by (simp add: server_flashcards_def)
  show ?thesis
    using re_step_example mix_bake_replies not_numbered_examples a refused_replies b c d'
    by (intro conjI)
qed

text \<open>
  C2, amended. When the first try of \<open>callGeminiWithRetry\<close> fails (its text does not
  pass the shape check, or the call throws), it makes exactly one more model call and
  returns what that call gave: its text, whether or not that passes the check and even
  when it is empty, or \<open>null\<close> when the call threw; the first try's text is not kept.
  The warning is attached by the flashcards and quiz routes only: what they return
  without a warning has passed extraction and schema validation, and when the first try
  of each of their two rounds fails and neither round's result passes (4 model calls),
  they answer with the first round's result (its second try's text, or \<open>null\<close>) and the
  warning. \<open>/api/ask\<close> never attaches a warning: for a numberedList expectation whose
  first reply is no numbered list it answers, after exactly 2 model calls, with the second
  reply's text, or with \<open>null\<close> when the second call threw.
\<close>

theorem last_try_returned_warning_on_json_routes:
  "(\<forall>fetch prompt e w t1.
      reply_text (fetch (fetches w)) = Inr t1 \<and> \<not> accepts e t1 \<longrightarrow>
      callGeminiWithRetry fetch prompt e w =
        (last_try (reply_text (fetch (fetches w + 1))),
         called w [prompt, prompt @ strengthen e])) \<and>
   (\<forall>fetch prompt e w err.
      reply_text (fetch (fetches w)) = Inl err \<longrightarrow>
      callGeminiWithRetry fetch prompt e w =
        (last_try (reply_text (fetch (fetches w + 1))), called w [prompt, prompt])) \<and>
   (\<forall>fetch topic w response w'.
      server_flashcards fetch topic w = (Ok200 response None, w') \<longrightarrow>
      passes validateFlashcards response) \<and>
   (\<forall>fetch topic w response w'.
      server_quiz fetch topic w = (Ok200 response None, w') \<longrightarrow>
      passes validateQuiz response) \<and>
   (\<forall>fetch topic w r1.
      topic \<noteq> [] \<and> try_fails ExpectJson (reply_text (fetch (fetches w))) \<and>
      last_try (reply_text (fetch (fetches w + 1))) = r1 \<and>
      (r1 = JNull \<or> (\<exists>s. r1 = JStr s)) \<and> \<not> passes validateFlashcards r1 \<and>
      try_fails ExpectJson (reply_text (fetch (fetches w + 2))) \<and>
      \<not> passes validateFlashcards (last_try (reply_text (fetch (fetches w + 3)))) \<longrightarrow>
      fst (server_flashcards fetch topic w) = Ok200 r1 (Some warning_text) \<and>
      fetches (snd (server_flashcards fetch topic w)) = fetches w + 4) \<and>
   (\<forall>fetch topic w r1.
      topic \<noteq> [] \<and> try_fails ExpectJson (reply_text (fetch (fetches w))) \<and>
      last_try (reply_text (fetch (fetches w + 1))) = r1 \<and>
      (r1 = JNull \<or> (\<exists>s. r1 = JStr s)) \<and> \<not> passes validateQuiz r1 \<and>
      try_fails ExpectJson (reply_text (fetch (fetches w + 2))) \<and>
      \<not> passes validateQuiz (last_try (reply_text (fetch (fetches w + 3)))) \<longrightarrow>
      fst (server_quiz fetch topic w) = Ok200 r1 (Some warning_text) \<and>
      fetches (snd (server_quiz fetch topic w)) = fetches w + 4) \<and>
   (\<forall>fetch prompt w t1.
      prompt \<noteq> [] \<and> re_step prompt \<and>
      reply_text (fetch (fetches w)) = Inr t1 \<and> \<not> isNumberedMarkdownList t1 \<longrightarrow>
      server_ask fetch prompt w =
        (Ok200 (last_try (reply_text (fetch (fetches w + 1)))) None,
         called w [prompt @ ask_list_instruction,
                   prompt @ ask_list_instruction @ strengthen ExpectMarkdownList])) \<and>
   (\<forall>fetch prompt w response warning w'.
      server_ask fetch prompt w = (Ok200 response warning, w') \<longrightarrow> warning = None)"
proof (intro conjI allI impI)
  fix fetch prompt e and w :: world and t1
  assume "reply_text (fetch (fetches w)) = Inr t1 \<and> \<not> accepts e t1"
  then show "callGeminiWithRetry fetch prompt e w =
        (last_try (reply_text (fetch (fetches w + 1))), called w [prompt, prompt @ strengthen e])"
    by (simp add: callGeminiWithRetry_first_fails)
next
  fix fetch prompt e and w :: world and err
  assume "reply_text (fetch (fetches w)) = Inl err"
  then show "callGeminiWithRetry fetch prompt e w =
        (last_try (reply_text (fetch (fetches w + 1))), called w [prompt, prompt])"
    by (rule callGeminiWithRetry_first_throws)
next
  fix fetch topic w response w'
  assume "server_flashcards fetch topic w = (Ok200 response None, w')"
  then show "passes validateFlashcards response" by (rule server_flashcards_unflagged)
next
  fix fetch topic w response w'
  assume "server_quiz fetch topic w = (Ok200 response None, w')"
  then show "passes validateQuiz response" by (rule server_quiz_unflagged)
next
  fix fetch and topic :: jsstring and w :: world and r1
  assume h: "topic \<noteq> [] \<and> try_fails ExpectJson (reply_text (fetch (fetches w))) \<and>
      last_try (reply_text (fetch (fetches w + 1))) = r1 \<and>
      (r1 = JNull \<or> (\<exists>s. r1 = JStr s)) \<and> \<not> passes validateFlashcards r1 \<and>
      try_fails ExpectJson (reply_text (fetch (fetches w + 2))) \<and>
      \<not> passes validateFlashcards (last_try (reply_text (fetch (fetches w + 3))))"
  have r: "fst (json_route fetch (js ''/api/flashcards'') validateFlashcards (flashcards_prompt topic) w) =
      Ok200 r1 (Some warning_text) \<and>
    fetches (snd (json_route fetch (js ''/api/flashcards'') validateFlashcards (flashcards_prompt topic) w)) =
      fetches w + 4"
    by (rule json_route_two_rounds) (use h in simp_all)
  show "fst (server_flashcards fetch topic w) = Ok200 r1 (Some warning_text)"
    "fetches (snd (server_flashcards fetch topic w)) = fetches w + 4"
    using r h by (simp_all add: server_flashcards_def)
next
  fix fetch and topic :: jsstring and w :: world and r1
  assume h: "topic \<noteq> [] \<and> try_fails ExpectJson (reply_text (fetch (fetches w))) \<and>
      last_try (reply_text (fetch (fetches w + 1))) = r1 \<and>
      (r1 = JNull \<or> (\<exists>s. r1 = JStr s)) \<and> \<not> passes validateQuiz r1 \<and>
      try_fails ExpectJson (reply_text (fetch (fetches w + 2))) \<and>
      \<not> passes validateQuiz (last_try (reply_text (fetch (fetches w + 3))))"
  have r: "fst (json_route fetch (js ''/api/quiz'') validateQuiz (quiz_prompt topic @ quiz_instruction) w) =
      Ok200 r1 (Some warning_text) \<and>
    fetches (snd (json_route fetch (js ''/api/quiz'') validateQuiz (quiz_prompt topic @ quiz_instruction) w)) =
      fetches w + 4"
    by (rule json_route_two_rounds) (use h in simp_all)
  show "fst (server_quiz fetch topic w) = Ok200 r1 (Some warning_text)"
    "fetches (snd (server_quiz fetch topic w)) = fetches w + 4"
    using r h by (simp_all add: server_quiz_def)
next
  fix fetch and prompt :: jsstring and w :: world and t1
  assume h: "prompt \<noteq> [] \<and> re_step prompt \<and>
      reply_text (fetch (fetches w)) = Inr t1 \<and> \<not> isNumberedMarkdownList t1"
  show "server_ask fetch prompt w =
        (Ok200 (last_try (reply_text (fetch (fetches w + 1)))) None,
         called w [prompt @ ask_list_instruction,
                   prompt @ ask_list_instruction @ strengthen ExpectMarkdownList])"
    by (rule server_ask_first_fails [where ?t1.0 = t1]) (use h in simp_all)
next
  fix fetch prompt w response warning w'
  assume "server_ask fetch prompt w = (Ok200 response warning, w')"
  then show "warning = None" by (rule server_ask_no_warning)
qed

theorem last_try_returned_warning_on_json_routes_witness:
  "reply_text (mix_bake (fetches world0)) = Inr (JStr (js ''Mix it'')) \<and>
   \<not> accepts ExpectMarkdownList (JStr (js ''Mix it'')) \<and>
   reply_text (mix_bake (fetches world0 + 1)) = Inr (JStr (js ''Bake it'')) \<and>
   callGeminiWithRetry mix_bake (js ''How?'') ExpectMarkdownList world0 =
     (JStr (js ''Bake it''),
      called world0 [js ''How?'', js ''How?'' @ strengthen ExpectMarkdownList]) \<and>
   reply_text (mix_then_refused (fetches world0)) = Inr (JStr (js ''Mix it'')) \<and>
   reply_text (mix_then_refused (fetches world0 + 1)) = Inl (NetworkError (js ''ECONNRESET'')) \<and>
   callGeminiWithRetry mix_then_refused (js ''How?'') ExpectMarkdownList world0 =
     (JNull, called world0 [js ''How?'', js ''How?'' @ strengthen ExpectMarkdownList]) \<and>
   reply_text (replies [] (fetches world0)) = Inl (NetworkError (js ''ECONNRESET'')) \<and>
   callGeminiWithRetry (replies []) (js ''How?'') ExpectMarkdownList world0 =
     (JNull, called world0 [js ''How?'', js ''How?'']) \<and>
   js ''cats'' \<noteq> [] \<and>
   try_fails ExpectJson (reply_text (gemini_reply (JStr (js ''no list'')))) \<and>
   last_try (reply_text (gemini_reply (JStr (js ''no list'')))) = JStr (js ''no list'') \<and>
   \<not> passes validateFlashcards (JStr (js ''no list'')) \<and>
   \<not> passes validateQuiz (JStr (js ''no list'')) \<and>
   fst (server_flashcards (\<lambda>k. gemini_reply (JStr (js ''no list''))) (js ''cats'') world0) =
     Ok200 (JStr (js ''no list'')) (Some warning_text) \<and>
   fetches (snd (server_flashcards (\<lambda>k. gemini_reply (JStr (js ''no list''))) (js ''cats'')
     world0)) = fetches world0 + 4 \<and>
   fst (server_quiz (\<lambda>k. gemini_reply (JStr (js ''no list''))) (js ''cats'') world0) =
     Ok200 (JStr (js ''no list'')) (Some warning_text) \<and>
   fetches (snd (server_quiz (\<lambda>k. gemini_reply (JStr (js ''no list''))) (js ''cats'')
     world0)) = fetches world0 + 4 \<and>
   js ''List the steps'' \<noteq> [] \<and> re_step (js ''List the steps'') \<and>
   \<not> isNumberedMarkdownList (JStr (js ''Mix it'')) \<and>
   server_ask mix_bake (js ''List the steps'') world0 =
     (Ok200 (JStr (js ''Bake it'')) None,
      called world0 [js ''List the steps'' @ ask_list_instruction,
        js ''List the steps'' @ ask_list_instruction @ strengthen ExpectMarkdownList]) \<and>
   server_flashcards (replies [gemini_reply (JStr chatty_reply)]) (js ''cats'') world0 =
     (Ok200 (JStr chatty_reply) None, called world0 [flashcards_prompt (js ''cats'')]) \<and>
   passes validateFlashcards (JStr chatty_reply) \<and>
   server_quiz (replies [gemini_reply (JStr quiz_wrong_answer)]) (js ''cats'') world0 =
     (Ok200 (JStr quiz_wrong_answer) None,
      called world0 [quiz_prompt (js ''cats'') @ quiz_instruction]) \<and>
   passes validateQuiz (JStr quiz_wrong_answer)"
proof -
  note amended = last_try_returned_warning_on_json_routes
  note part1 = amended [THEN conjunct1, rule_format]
  note part2 = amended [THEN conjunct2, THEN conjunct1, rule_format]
  note part3 = amended [THEN conjunct2, THEN conjunct2, THEN conjunct1, rule_format]
  note part4 = amended [THEN conjunct2, THEN conjunct2, THEN conjunct2, THEN conjunct1, rule_format]
  note part5 = amended [THEN conjunct2, THEN conjunct2, THEN conjunct2, THEN conjunct2,
      THEN conjunct1, rule_format]
  note part6 = amended [THEN conjunct2, THEN conjunct2, THEN conjunct2, THEN conjunct2,
      THEN conjunct2, THEN conjunct1, rule_format]
  note part7 = amended [THEN conjunct2, THEN conjunct2, THEN conjunct2, THEN conjunct2,
      THEN conjunct2, THEN conjunct2, THEN conjunct1, rule_format]
  note part8 = amended [THEN conjunct2, THEN conjunct2, THEN conjunct2, THEN conjunct2,
      THEN conjunct2, THEN conjunct2, THEN conjunct2, rule_format]
  have na: "\<not> accepts ExpectMarkdownList (JStr (js ''Mix it''))"
    using not_numbered_examples by (simp add: accepts_def)
  have ne: "js ''cats'' \<noteq> []" "js ''List the steps'' \<noteq> []" by (simp_all add: js_def)
  have p1: "callGeminiWithRetry mix_bake (js ''How?'') ExpectMarkdownList world0 =
     (JStr (js ''Bake it''),
      called world0 [js ''How?'', js ''How?'' @ strengthen ExpectMarkdownList])"
    using part1 [where fetch = mix_bake and w = world0 and e = ExpectMarkdownList
        and ?t1.0 = "JStr (js ''Mix it'')" and prompt = "js ''How?''"] mix_bake_replies(1) na
    by (simp only: mix_bake_replies(2) last_try_def sum.case simp_thms)
  have p1': "callGeminiWithRetry mix_then_refused (js ''How?'') ExpectMarkdownList world0 =
     (JNull, called world0 [js ''How?'', js ''How?'' @ strengthen ExpectMarkdownList])"
    using part1 [where fetch = mix_then_refused and w = world0 and e = ExpectMarkdownList
        and ?t1.0 = "JStr (js ''Mix it'')" and prompt = "js ''How?''"] refused_replies(1) na
    by (simp only: refused_replies(2) last_try_def sum.case simp_thms)
  have r0: "reply_text (replies [] (fetches world0)) = Inl (NetworkError (js ''ECONNRESET''))"
    "reply_text (replies [] (fetches world0 + 1)) = Inl (NetworkError (js ''ECONNRESET''))"
    by (simp_all add: replies_def reply_text_Rejected)
  have p2: "callGeminiWithRetry (replies []) (js ''How?'') ExpectMarkdownList world0 =
     (JNull, called world0 [js ''How?'', js ''How?''])"
    using part2 [where fetch = "replies []" and w = world0 and e = ExpectMarkdownList
        and prompt = "js ''How?''", OF r0(1)]
    by (simp only: r0(2) last_try_def sum.case)
  let ?f = "\<lambda>k::nat. gemini_reply (JStr (js ''no list''))"
  have tf: "try_fails ExpectJson (reply_text (gemini_reply (JStr (js ''no list''))))"
    "last_try (reply_text (gemini_reply (JStr (js ''no list'')))) = JStr (js ''no list'')"
    using no_list by (simp_all add: try_fails_def last_try_def)
  have np: "\<not> passes validateFlashcards (JStr (js ''no list''))"
    "\<not> passes validateQuiz (JStr (js ''no list''))"
    using no_list by (simp_all add: not_accepts_not_passes)
  have p5: "fst (server_flashcards ?f (js ''cats'') world0) =
     Ok200 (JStr (js ''no list'')) (Some warning_text) \<and>
     fetches (snd (server_flashcards ?f (js ''cats'') world0)) = fetches world0 + 4"
    by (rule part5) (use ne tf np in simp)
  have p6: "fst (server_quiz ?f (js ''cats'') world0) =
     Ok200 (JStr (js ''no list'')) (Some warning_text) \<and>
     fetches (snd (server_quiz ?f (js ''cats'') world0)) = fetches world0 + 4"
    by (rule part6) (use ne tf np in simp)
  have p7: "server_ask mix_bake (js ''List the steps'') world0 =
     (Ok200 (JStr (js ''Bake it'')) None,
      called world0 [js ''List the steps'' @ ask_list_instruction,
        js ''List the steps'' @ ask_list_instruction @ strengthen ExpectMarkdownList])"
    using part7 [where fetch = mix_bake and w = world0 and prompt = "js ''List the steps''"
        and ?t1.0 = "JStr (js ''Mix it'')"] ne(2) re_step_example mix_bake_replies(1)
      not_numbered_examples(1)
    by (simp only: mix_bake_replies(2) last_try_def sum.case simp_thms)
  have p8: "(None :: jsstring option) = None"
    using p7 by (rule part8)
  have f: "server_flashcards (replies [gemini_reply (JStr chatty_reply)]) (js ''cats'') world0 =
     (Ok200 (JStr chatty_reply) None, called world0 [flashcards_prompt (js ''cats'')])"
    using ne(1) json_route_first_reply [where validate = validateFlashcards and w = world0
        and fetch = "replies [gemini_reply (JStr chatty_reply)]" and s = chatty_reply]
      chatty_extract chatty_valid
    by (simp add: server_flashcards_def replies_def accepts_def)
  have q: "server_quiz (replies [gemini_reply (JStr quiz_wrong_answer)]) (js ''cats'') world0 =
     (Ok200 (JStr quiz_wrong_answer) None,
      called world0 [quiz_prompt (js ''cats'') @ quiz_instruction])"
    using ne(1) json_route_first_reply [where validate = validateQuiz and w = world0
        and fetch = "replies [gemini_reply (JStr quiz_wrong_answer)]" and s = quiz_wrong_answer]
      quiz_wrong_parsed quiz_wrong_extract
    by (simp add: server_quiz_def replies_def accepts_def)
  have p3: "passes validateFlashcards (JStr chatty_reply)"
    using f by (rule part3)
  have p4: "passes validateQuiz (JStr quiz_wrong_answer)"
    using q by (rule part4)
  show ?thesis
    using mix_bake_replies na p1 refused_replies(1,2) p1' r0(1) p2 ne tf np p5 p6
      re_step_example not_numbered_examples(1) p7 f p3 q p4
    by (intro conjI) simp_all
qed

text \<open>
  C3, as stated, fails on the flashcards route: a request whose replies never contain a
  JSON array costs 4 model calls, since the route calls \<open>callGeminiWithRetry\<close> a second
  time (with its own retry instruction) when the first result does not validate.
\<close>

theorem two_calls_per_request_counterexample:
  "\<not> accepts ExpectJson (JStr (js ''no list'')) \<and>
   fetches (snd (server_flashcards (\<lambda>k. gemini_reply (JStr (js ''no list'')))
     (js ''cats'') world0)) = 4"
  using no_list no_list_fetches by simp

text \<open>
  C3, amended. One invocation of \<open>callGeminiWithRetry\<close> never makes more than 2 model
  calls, and when its first reply fails the shape check it makes exactly one more, with
  the shape-specific strengthening instruction appended to the prompt. A request to
  \<open>/api/ask\<close> makes at most 2 model calls; a request to \<open>/api/flashcards\<close> or \<open>/api/quiz\<close>
  makes at most 4.
\<close>

theorem one_repair_per_invocation:
  "(\<forall>fetch prompt e w.
      fetches (snd (callGeminiWithRetry fetch prompt e w)) \<le> fetches w + 2) \<and>
   (\<forall>fetch prompt e w t1.
      reply_text (fetch (fetches w)) = Inr t1 \<and> \<not> accepts e t1 \<longrightarrow>
      snd (callGeminiWithRetry fetch prompt e w) = called w [prompt, prompt @ strengthen e] \<and>
      fetches (snd (callGeminiWithRetry fetch prompt e w)) = fetches w + 2) \<and>
   (\<forall>fetch prompt w. fetches (snd (server_ask fetch prompt w)) \<le> fetches w + 2) \<and>
   (\<forall>fetch topic w. fetches (snd (server_flashcards fetch topic w)) \<le> fetches w + 4) \<and>
   (\<forall>fetch topic w. fetches (snd (server_quiz fetch topic w)) \<le> fetches w + 4)"
proof -
  have a: "snd (callGeminiWithRetry fetch prompt e w) = called w [prompt, prompt @ strengthen e] \<and>
      fetches (snd (callGeminiWithRetry fetch prompt e w)) = fetches w + 2"
    if "reply_text (fetch (fetches w)) = Inr t1" "\<not> accepts e t1" for fetch prompt e w t1
    using that by (simp add: callGeminiWithRetry_cases split: sum.split)
  have b: "fetches (snd (server_flashcards fetch topic w)) \<le> fetches w + 4" for fetch topic w
    using json_route_fetches [of fetch "js ''/api/flashcards''" validateFlashcards
            "flashcards_prompt topic" w]
    by (simp add: server_flashcards_def)
  have c: "fetches (snd (server_quiz fetch topic w)) \<le> fetches w + 4" for fetch topic w
    using json_route_fetches [of fetch "js ''/api/quiz''" validateQuiz
            "quiz_prompt topic @ quiz_instruction" w]
    by (simp add: server_quiz_def)
  show ?thesis
    using callGeminiWithRetry_fetches server_ask_fetches a b c by blast
qed

theorem one_repair_per_invocation_witness:
  "reply_text (replies [gemini_reply (JStr (js ''no list'')), gemini_reply (JStr (js ''[]''))]
     (fetches world0)) = Inr (JStr (js ''no list'')) \<and>
   \<not> accepts ExpectJson (JStr (js ''no list'')) \<and>
   snd (callGeminiWithRetry
     (replies [gemini_reply (JStr (js ''no list'')), gemini_reply (JStr (js ''[]''))])
     (js ''Six cards'') ExpectJson world0) =
     called world0 [js ''Six cards'', js ''Six cards'' @ strengthen ExpectJson] \<and>
   fetches (snd (callGeminiWithRetry
     (replies [gemini_reply (JStr (js ''no list'')), gemini_reply (JStr (js ''[]''))])
     (js ''Six cards'') ExpectJson world0)) = fetches world0 + 2"
proof -
  let ?fetch = "replies [gemini_reply (JStr (js ''no list'')), gemini_reply (JStr (js ''[]''))]"
  have h1: "reply_text (?fetch (fetches world0)) = Inr (JStr (js ''no list''))"
    by (simp add: replies_def world0_def)
  show ?thesis
    using h1 no_list one_repair_per_invocation by blast
qed




text \<open>
  C5. For a jsonArray expectation and the reply text
  \<open>Sure! [{"question":"Q","answer":"A"}] thanks\<close>, the bracketed span is extracted and
  parsed, every element has the flashcard schema's required fields, and the text is
  accepted on the first attempt: \<open>callGeminiWithRetry\<close> returns it after one model call and
  the flashcards route answers with it and no warning. The reply need not consist of
  nothing but JSON.
\<close>

theorem flashcards_chatty_reply_accepted:
  \<open>match_bracket_span chatty_reply = Some (js ''[{"question":"Q","answer":"A"}]'') \<and>
   extractJsonArray (JStr chatty_reply) =
     JArr [JObj [(js ''question'', JStr (js ''Q'')), (js ''answer'', JStr (js ''A''))]] \<and>
   validateFlashcards (extractJsonArray (JStr chatty_reply)) \<and>
   (\<forall>fetch topic w.
      topic \<noteq> [] \<and> reply_text (fetch (fetches w)) = Inr (JStr chatty_reply) \<longrightarrow>
      callGeminiWithRetry fetch (flashcards_prompt topic) ExpectJson w =
        (JStr chatty_reply, called w [flashcards_prompt topic]) \<and>
      server_flashcards fetch topic w =
        (Ok200 (JStr chatty_reply) None, called w [flashcards_prompt topic]))\<close>
proof -
  have acc: "accepts ExpectJson (JStr chatty_reply)"
    by (simp add: accepts_def chatty_extract)
  have pass: "passes validateFlashcards (JStr chatty_reply)"
    using acc chatty_valid by (rule accepts_json_passes)
  have route: "callGeminiWithRetry fetch (flashcards_prompt topic) ExpectJson w =
        (JStr chatty_reply, called w [flashcards_prompt topic]) \<and>
      server_flashcards fetch topic w =
        (Ok200 (JStr chatty_reply) None, called w [flashcards_prompt topic])"
    if "topic \<noteq> []" "reply_text (fetch (fetches w)) = Inr (JStr chatty_reply)"
    for fetch topic w
  proof -
    have r: "callGeminiWithRetry fetch (flashcards_prompt topic) ExpectJson w =
        (JStr chatty_reply, called w [flashcards_prompt topic])"
      using that(2) acc by (simp add: callGeminiWithRetry_cases)
    show ?thesis
      using that(1) pass by (simp add: r server_flashcards_def json_route_def passes_def Let_def)
  qed
  show ?thesis
    using chatty_span chatty_extract chatty_valid route by blast
qed

theorem flashcards_chatty_reply_accepted_witness:
  "js ''cats'' \<noteq> [] \<and>
   reply_text (replies [gemini_reply (JStr chatty_reply)] (fetches world0)) = Inr (JStr chatty_reply) \<and>
   server_flashcards (replies [gemini_reply (JStr chatty_reply)]) (js ''cats'') world0 =
     (Ok200 (JStr chatty_reply) None, called world0 [flashcards_prompt (js ''cats'')])"
proof -
  have h1: "js ''cats'' \<noteq> []" by (simp add: js_def)
  have h2: "reply_text (replies [gemini_reply (JStr chatty_reply)] (fetches world0)) =
              Inr (JStr chatty_reply)"
    by (simp add: replies_def world0_def)
  show ?thesis
    using h1 h2 flashcards_chatty_reply_accepted by blast
qed

text \<open>
  C6, as stated, fails: a quiz item whose \<open>correctAnswer\<close> is none of its four options
  passes \<open>validateQuiz\<close>, and \<open>/api/quiz\<close> returns it without a warning.
\<close>

theorem quiz_answer_not_checked_counterexample:
  "validateQuiz (extractJsonArray (JStr quiz_wrong_answer)) \<and>
   \<not> quiz_invariant (extractJsonArray (JStr quiz_wrong_answer)) \<and>
   server_quiz (replies [gemini_reply (JStr quiz_wrong_answer)]) (js ''cats'') world0 =
     (Ok200 (JStr quiz_wrong_answer) None,
      called world0 [quiz_prompt (js ''cats'') @ quiz_instruction])"
proof -
  have acc: "accepts ExpectJson (JStr quiz_wrong_answer)"
    by (simp add: accepts_def quiz_wrong_parsed)
  have ne: "js ''cats'' \<noteq> []" by (simp add: js_def)
  have h: "reply_text (replies [gemini_reply (JStr quiz_wrong_answer)] (fetches world0)) =
             Inr (JStr quiz_wrong_answer)"
    by (simp add: replies_def world0_def)
  have "server_quiz (replies [gemini_reply (JStr quiz_wrong_answer)]) (js ''cats'') world0 =
     (Ok200 (JStr quiz_wrong_answer) None,
      called world0 [quiz_prompt (js ''cats'') @ quiz_instruction])"
    using ne json_route_first_reply [where validate = validateQuiz and w = world0
        and fetch = "replies [gemini_reply (JStr quiz_wrong_answer)]", OF h acc quiz_wrong_extract]
    by (simp add: server_quiz_def)
  then show ?thesis
    using quiz_wrong_extract quiz_wrong_not_invariant by simp
qed

text \<open>
  C6, amended. Every payload accepted by \<open>validateQuiz\<close> is an array each element of
  which is an object carrying \<open>question\<close>, \<open>correctAnswer\<close> and \<open>explanation\<close> as strings
  and \<open>options\<close> as an array of exactly 4 strings. (That \<open>correctAnswer\<close> is one of the
  options is not checked.)
\<close>

theorem validateQuiz_fields_and_four_options:
  "validateQuiz payload \<longrightarrow> (\<exists>items. payload = JArr items \<and> list_all quiz_item_fields items)"
proof
  assume v: "validateQuiz payload"
  show "\<exists>items. payload = JArr items \<and> list_all quiz_item_fields items"
  proof (cases payload)
    case (JArr xs)
    then have "list_all quiz_item_fields xs"
      using v ajv_quiz_item
      by (simp add: validateQuiz_def quizSchema_def list_all_iff del: ajv_validate.simps(3))
    then show ?thesis using JArr by simp
  qed (use v in \<open>simp_all add: validateQuiz_def quizSchema_def\<close>)
qed

theorem validateQuiz_fields_and_four_options_witness:
  "validateQuiz (extractJsonArray (JStr quiz_wrong_answer)) \<and>
   (\<exists>items. extractJsonArray (JStr quiz_wrong_answer) = JArr items \<and>
      list_all quiz_item_fields items)"
  using validateQuiz_fields_and_four_options [of "extractJsonArray (JStr quiz_wrong_answer)"]
    quiz_wrong_extract
  by simp

text \<open>
  C7. For every text, \<open>isNumberedMarkdownList\<close> accepts it if and only if, of the \<open>n\<close>
  non-empty lines that remain when the text is cut at its line feeds and every line is
  trimmed of the white space around it, at least \<open>max 1 (n div 2)\<close> start with an integer
  immediately followed by a dot and a white space or a dash (\<open>numbered_list_rule\<close>, which
  says this of the text itself, without the code's \<open>split\<close> and \<open>trim\<close>); a value that is
  no string is never accepted. In particular the text \<open>1. Do X\<close>, \<open>2. Do Y\<close>, \<open>3. Do Z\<close>
  on three lines is accepted, and on the first attempt: \<open>callGeminiWithRetry\<close> returns it
  after one model call.
\<close>

theorem numbered_list_rule_decides:
  "(\<forall>s. isNumberedMarkdownList (JStr s) = numbered_list_rule s) \<and>
   (\<forall>v. (\<forall>s. v \<noteq> JStr s) \<longrightarrow> \<not> isNumberedMarkdownList v) \<and>
   isNumberedMarkdownList (JStr three_steps) \<and>
   (\<forall>fetch prompt w.
      reply_text (fetch (fetches w)) = Inr (JStr three_steps) \<longrightarrow>
      callGeminiWithRetry fetch prompt ExpectMarkdownList w = (JStr three_steps, called w [prompt]))"
proof (intro conjI allI impI)
  fix s
  define ls where "ls = filter (\<lambda>l. l \<noteq> []) (map trim (split_lines s))"
  have rule: "numbered_list_rule s = (max 1 (length ls div 2) \<le> length (filter numbered_line ls))"
    unfolding numbered_list_rule_eq Let_def ls_def by (rule refl)
  have code: "isNumberedMarkdownList (JStr s) =
      (if s = [] then False
       else if length ls = 0 then False
       else max 1 (length ls div 2) \<le> length (filter numbered_line ls))"
    unfolding isNumberedMarkdownList_def Let_def ls_def numbered_filter_eq by simp
  have empty: "ls = []" if "s = []"
    using that by (simp add: ls_def trim_def)
  show "isNumberedMarkdownList (JStr s) = numbered_list_rule s"
  proof (cases "ls = []")
    case True
    then show ?thesis by (simp add: rule code)
  next
    case False
    then have "s \<noteq> []" using empty by blast
    then show ?thesis using False by (simp add: rule code)
  qed
next
  fix v assume "\<forall>s. v \<noteq> JStr s"
  then show "\<not> isNumberedMarkdownList v"
    by (cases v) (simp_all add: isNumberedMarkdownList_def)
next
  show "isNumberedMarkdownList (JStr three_steps)" by (rule three_steps_numbered)
next
  fix fetch prompt and w :: world
  assume "reply_text (fetch (fetches w)) = Inr (JStr three_steps)"
  then show "callGeminiWithRetry fetch prompt ExpectMarkdownList w =
      (JStr three_steps, called w [prompt])"
    by (simp add: callGeminiWithRetry_cases accepts_def three_steps_numbered)
qed

theorem numbered_list_rule_decides_witness:
  "isNumberedMarkdownList (JStr three_steps) \<and> numbered_list_rule three_steps \<and>
   isNumberedMarkdownList (JStr indented_step) \<and> numbered_list_rule indented_step \<and>
   \<not> numbered_line indented_step \<and>
   isNumberedMarkdownList (JStr one_step_of_three) \<and> numbered_list_rule one_step_of_three \<and>
   \<not> numbered_line one_step_of_three \<and>
   text_lines one_step_of_three [js ''a'', js ''b'' @ [13], js ''1. x''] \<and>
   list_all2 trimmed [js ''a'', js ''b'' @ [13], js ''1. x''] [js ''a'', js ''b'', js ''1. x''] \<and>
   JNull \<noteq> JStr three_steps \<and> \<not> isNumberedMarkdownList JNull \<and>
   \<not> isNumberedMarkdownList (JStr (js ''Mix it'')) \<and> \<not> numbered_list_rule (js ''Mix it'') \<and>
   reply_text (replies [gemini_reply (JStr three_steps)] (fetches world0)) = Inr (JStr three_steps) \<and>
   callGeminiWithRetry (replies [gemini_reply (JStr three_steps)]) (js ''List the steps'')
     ExpectMarkdownList world0 = (JStr three_steps, called world0 [js ''List the steps''])"
proof -
  note claim = numbered_list_rule_decides
  note part1 = claim [THEN conjunct1, rule_format]
  note part2 = claim [THEN conjunct2, THEN conjunct1, rule_format]
  note part4 = claim [THEN conjunct2, THEN conjunct2, THEN conjunct2, rule_format]
  have a: "numbered_list_rule three_steps"
    using part1 [of three_steps] three_steps_numbered by simp
  have b: "\<not> isNumberedMarkdownList JNull"
    by (rule part2) simp
  have c: "\<not> numbered_list_rule (js ''Mix it'')"
    using part1 [of "js ''Mix it''"] not_numbered_examples(1) by simp
  have e: "numbered_list_rule indented_step" "numbered_list_rule one_step_of_three"
    using part1 [of indented_step] part1 [of one_step_of_three] more_numbered_examples(1,2)
    by simp_all
  have f: "\<not> numbered_line indented_step" "\<not> numbered_line one_step_of_three"
    using more_numbered_examples(3,4) by (simp_all add: numbered_line_eq)
  have g: "text_lines one_step_of_three [js ''a'', js ''b'' @ [13], js ''1. x'']"
    by (simp add: text_lines_def one_step_of_three_def js_def)
  have h': "list_all2 trimmed [js ''a'', js ''b'' @ [13], js ''1. x''] [js ''a'', js ''b'', js ''1. x'']"
    unfolding list_all2_trimmed by (simp add: trim_def is_space_def js_def)
  have h: "reply_text (replies [gemini_reply (JStr three_steps)] (fetches world0)) =
             Inr (JStr three_steps)"
    by (simp add: replies_def world0_def)
  have d: "callGeminiWithRetry (replies [gemini_reply (JStr three_steps)]) (js ''List the steps'')
     ExpectMarkdownList world0 = (JStr three_steps, called world0 [js ''List the steps''])"
    by (rule part4) (rule h)
  show ?thesis
    using three_steps_numbered a b c not_numbered_examples(1) h d e f g h'
      more_numbered_examples(1,2)
    by simp
qed

text \<open>
  C8. For a jsonArray (flashcards) expectation, when the first reply contains no parseable
  JSON array and the second reply, to the strengthened prompt, is exactly \<open>[]\<close>, the empty
  array is accepted as conforming to the schema and returned without a warning, after
  exactly 2 model calls.
\<close>

theorem flashcards_empty_array_repair:
  "extractJsonArray (JStr (js ''[]'')) = JArr [] \<and> validateFlashcards (JArr []) \<and>
   (\<forall>fetch topic w t1.
      topic \<noteq> [] \<and> reply_text (fetch (fetches w)) = Inr t1 \<and>
      \<not> truthy (extractJsonArray t1) \<and>
      reply_text (fetch (fetches w + 1)) = Inr (JStr (js ''[]'')) \<longrightarrow>
      server_flashcards fetch topic w =
        (Ok200 (JStr (js ''[]'')) None,
         called w [flashcards_prompt topic, flashcards_prompt topic @ strengthen ExpectJson]) \<and>
      fetches (snd (server_flashcards fetch topic w)) = fetches w + 2)"
proof -
  have pass: "passes validateFlashcards (JStr (js ''[]''))"
    by (rule accepts_json_passes) (simp_all add: accepts_def empty_array_extract empty_array_valid)
  have route: "server_flashcards fetch topic w =
        (Ok200 (JStr (js ''[]'')) None,
         called w [flashcards_prompt topic, flashcards_prompt topic @ strengthen ExpectJson]) \<and>
      fetches (snd (server_flashcards fetch topic w)) = fetches w + 2"
    if "topic \<noteq> []" "reply_text (fetch (fetches w)) = Inr t1"
      "\<not> truthy (extractJsonArray t1)"
      "reply_text (fetch (fetches w + 1)) = Inr (JStr (js ''[]''))"
    for fetch topic w t1
  proof -
    have r: "callGeminiWithRetry fetch (flashcards_prompt topic) ExpectJson w =
        (JStr (js ''[]''),
         called w [flashcards_prompt topic, flashcards_prompt topic @ strengthen ExpectJson])"
      using that(2-4) by (simp add: callGeminiWithRetry_cases accepts_def)
    show ?thesis
      using that(1) pass by (simp add: r server_flashcards_def json_route_def passes_def Let_def)
  qed
  show ?thesis
    using empty_array_extract empty_array_valid route by blast
qed

theorem flashcards_empty_array_repair_witness:
  "js ''cats'' \<noteq> [] \<and>
   reply_text (replies [gemini_reply (JStr (js ''no list'')), gemini_reply (JStr (js ''[]''))]
     (fetches world0)) = Inr (JStr (js ''no list'')) \<and>
   \<not> truthy (extractJsonArray (JStr (js ''no list''))) \<and>
   reply_text (replies [gemini_reply (JStr (js ''no list'')), gemini_reply (JStr (js ''[]''))]
     (fetches world0 + 1)) = Inr (JStr (js ''[]'')) \<and>
   server_flashcards
     (replies [gemini_reply (JStr (js ''no list'')), gemini_reply (JStr (js ''[]''))])
     (js ''cats'') world0 =
     (Ok200 (JStr (js ''[]'')) None,
      called world0
        [flashcards_prompt (js ''cats''), flashcards_prompt (js ''cats'') @ strengthen ExpectJson]) \<and>
   fetches (snd (server_flashcards
     (replies [gemini_reply (JStr (js ''no list'')), gemini_reply (JStr (js ''[]''))])
     (js ''cats'') world0)) = fetches world0 + 2"
proof -
  let ?fetch = "replies [gemini_reply (JStr (js ''no list'')), gemini_reply (JStr (js ''[]''))]"
  have h1: "js ''cats'' \<noteq> []" by (simp add: js_def)
  have h2: "reply_text (?fetch (fetches world0)) = Inr (JStr (js ''no list''))"
    by (simp add: replies_def world0_def)
  have h3: "\<not> truthy (extractJsonArray (JStr (js ''no list'')))"
    using no_list by (simp add: accepts_def)
  have h4: "reply_text (?fetch (fetches world0 + 1)) = Inr (JStr (js ''[]''))"
    by (simp add: replies_def world0_def)
  show ?thesis
    using h1 h2 h3 h4 flashcards_empty_array_repair by blast
qed

text \<open>
  C9 asks that a 2xx reply without the expected text structure be retried like a
  transport error. For the reply \<open>{"candidates":[{"content":{"parts":[{}]}}]}\<close>, whose
  first part has no text, the code does not: the guard reads down to \<open>content\<close> only, and
  \<open>callGeminiAPI\<close> returns \<open>undefined\<close> as a success after one call and no wait.
\<close>

theorem missing_text_is_returned_as_success:
  "callGeminiAPI (\<lambda>k. reply_without_text) (js ''hi'') = (Inr JUndefined, called world0 [js ''hi''])"
proof -
  have "try_block reply_without_text 0 = Return JUndefined"
    by (simp add: try_block_def reply_without_text_def ok_def candidate_text_def js_def)
  then show ?thesis
    by (simp add: callGeminiAPI_def loop_unfold maxRetries_def)
qed

end
